theory Spec2Isabelle
  imports Main "HOL-Library.Word"
begin

unbundle bit_operations_syntax

section \<open>The m4 macro processor of \<^verbatim>\<open>m4.c\<close>\<close>

text \<open>
  A shallow embedding of \<^verbatim>\<open>src/m4.c\<close>. Every C function keeps its name; a function
  that mutates an argument through a pointer returns the new value next to its
  return code.

  Implementation-defined parameters are fixed as on an LP64 target whose plain
  \<^verbatim>\<open>char\<close> is unsigned (the AArch64 Linux ABI): \<^verbatim>\<open>size_t\<close> and \<^verbatim>\<open>unsigned long\<close> have
  64 bits, pointers have 8 bytes, and a byte read back from a buffer is in 0..255, so
  it never equals \<^verbatim>\<open>EOF\<close>. The character classes are those of the "C" locale.

  A C string is modelled by the list of its bytes before the terminating NUL.
  \<^verbatim>\<open>malloc\<close>, \<^verbatim>\<open>realloc\<close> and \<^verbatim>\<open>strdup\<close> succeed or fail as an allocator oracle says:
  a predicate on the number of bytes requested.
\<close>

subsection \<open>Constants and macros\<close>

type_synonym size_t = "64 word"
type_synonym allocator = "nat \<Rightarrow> bool"

definition SIZE_MAX :: nat where
  "SIZE_MAX = 2 ^ 64 - 1"

definition INIT_BUF_SIZE :: nat where
  "INIT_BUF_SIZE = 512"

definition HASH_TABLE_SIZE :: nat where
  "HASH_TABLE_SIZE = 16384"

definition UCHAR_MAX :: nat where
  "UCHAR_MAX = 255"

definition EOF :: int where
  "EOF = - 1"

definition NUL :: char where
  "NUL = CHR 0x00"

text \<open>\<^verbatim>\<open>AOF(a, b)\<close> and \<^verbatim>\<open>MOF(a, b)\<close>: the overflow tests on \<^verbatim>\<open>size_t\<close> operands.\<close>

definition AOF :: "nat \<Rightarrow> nat \<Rightarrow> bool" where
  "AOF x y = (x > SIZE_MAX - y)"

definition MOF :: "nat \<Rightarrow> nat \<Rightarrow> bool" where
  "MOF x y = (x \<noteq> 0 \<and> y > SIZE_MAX div x)"

text \<open>Sizes of the structs handed to \<^verbatim>\<open>malloc\<close> and \<^verbatim>\<open>calloc\<close>.\<close>

definition sizeof_buf :: nat where
  "sizeof_buf = 24"

definition sizeof_entry :: nat where
  "sizeof_entry = 24"

definition sizeof_mcall :: nat where
  "sizeof_mcall = 120"

text \<open>The \<^verbatim>\<open>ctype.h\<close> classes in the "C" locale, on a byte.\<close>

definition isdigit :: "char \<Rightarrow> bool" where
  "isdigit c = (48 \<le> (of_char c :: nat) \<and> (of_char c :: nat) \<le> 57)"

definition isalpha :: "char \<Rightarrow> bool" where
  "isalpha c = ((65 \<le> (of_char c :: nat) \<and> (of_char c :: nat) \<le> 90)
     \<or> (97 \<le> (of_char c :: nat) \<and> (of_char c :: nat) \<le> 122))"

definition isalnum :: "char \<Rightarrow> bool" where
  "isalnum c = (isalpha c \<or> isdigit c)"

definition isgraph :: "char \<Rightarrow> bool" where
  "isgraph c = (33 \<le> (of_char c :: nat) \<and> (of_char c :: nat) \<le> 126)"

text \<open>The value of a \<^verbatim>\<open>char *\<close> that points to the start of a byte array.\<close>

definition cstr :: "string \<Rightarrow> string" where
  "cstr bs = takeWhile (\<lambda>c. c \<noteq> NUL) bs"

text \<open>\<^verbatim>\<open>*s\<close> for a C string \<^verbatim>\<open>s\<close>: its first byte, the NUL when it is empty.\<close>

definition first_byte :: "string \<Rightarrow> char" where
  "first_byte str = (case str of [] \<Rightarrow> NUL | c # cs \<Rightarrow> c)"

subsection \<open>Growable buffers\<close>

text \<open>
  \<^verbatim>\<open>struct buf\<close>: \<open>buf_a\<close> holds the bytes \<^verbatim>\<open>a[0]\<close> .. \<^verbatim>\<open>a[i - 1]\<close> (the bytes beyond the
  fill index are indeterminate and the program never reads them), so the fill index
  \<^verbatim>\<open>i\<close> is the length of \<open>buf_a\<close>; \<open>buf_s\<close> is the capacity \<^verbatim>\<open>s\<close>.
\<close>

record buf =
  buf_a :: string
  buf_s :: nat

definition buf_i :: "buf \<Rightarrow> nat" where
  "buf_i b = length (buf_a b)"

definition BUF_FREE_SIZE :: "buf \<Rightarrow> nat" where
  "BUF_FREE_SIZE b = buf_s b - buf_i b"

definition init_buf :: "allocator \<Rightarrow> buf option" where
  "init_buf A =
     (if \<not> A sizeof_buf then None
      else if \<not> A INIT_BUF_SIZE then None
      else Some \<lparr>buf_a = [], buf_s = INIT_BUF_SIZE\<rparr>)"

definition grow_buf :: "allocator \<Rightarrow> buf \<Rightarrow> nat \<Rightarrow> nat \<times> buf" where
  "grow_buf A b will_use =
     (if will_use \<le> BUF_FREE_SIZE b then (0, b)
      else if MOF (buf_s b) 2 then (1, b)
      else if AOF (buf_s b * 2) will_use then (1, b)
      else if \<not> A (buf_s b * 2 + will_use) then (1, b)
      else (0, b\<lparr>buf_s := buf_s b * 2 + will_use\<rparr>))"

text \<open>\<^verbatim>\<open>ungetch\<close> returns the byte stored, or \<^verbatim>\<open>EOF\<close> when the buffer cannot grow.\<close>

definition ungetch :: "allocator \<Rightarrow> buf \<Rightarrow> char \<Rightarrow> int \<times> buf" where
  "ungetch A b ch =
     (if buf_i b = buf_s b then
        (case grow_buf A b 1 of
           (r, b') \<Rightarrow>
             if r \<noteq> 0 then (EOF, b')
             else (of_char ch, b'\<lparr>buf_a := buf_a b' @ [ch]\<rparr>))
      else (of_char ch, b\<lparr>buf_a := buf_a b @ [ch]\<rparr>))"

definition delete_buf :: "buf \<Rightarrow> buf" where
  "delete_buf b = b\<lparr>buf_a := []\<rparr>"

text \<open>\<^verbatim>\<open>ungetstr\<close>: the loop \<^verbatim>\<open>while (len) if (ungetch(b, *(s + --len)) == EOF) return 1;\<close>\<close>

fun ungetstr_loop :: "allocator \<Rightarrow> buf \<Rightarrow> string \<Rightarrow> nat \<Rightarrow> nat \<times> buf" where
  "ungetstr_loop A b str 0 = (0, b)"
| "ungetstr_loop A b str (Suc len) =
     (case ungetch A b (str ! len) of
        (r, b') \<Rightarrow> if r = EOF then (1, b') else ungetstr_loop A b' str len)"

definition ungetstr :: "allocator \<Rightarrow> buf \<Rightarrow> string \<Rightarrow> nat \<times> buf" where
  "ungetstr A b str = ungetstr_loop A b str (length str)"

definition put_str :: "allocator \<Rightarrow> buf \<Rightarrow> string \<Rightarrow> nat \<times> buf" where
  "put_str A b str =
     (if length str > BUF_FREE_SIZE b then
        (case grow_buf A b (length str) of
           (r, b') \<Rightarrow>
             if r \<noteq> 0 then (1, b') else (0, b'\<lparr>buf_a := buf_a b' @ str\<rparr>))
      else (0, b\<lparr>buf_a := buf_a b @ str\<rparr>))"

text \<open>\<^verbatim>\<open>buf_dump_buf\<close> returns the return code, \<^verbatim>\<open>dst\<close> and \<^verbatim>\<open>src\<close>.\<close>

definition buf_dump_buf :: "allocator \<Rightarrow> buf \<Rightarrow> buf \<Rightarrow> nat \<times> buf \<times> buf" where
  "buf_dump_buf A dst src =
     (if buf_i src > BUF_FREE_SIZE dst then
        (case grow_buf A dst (buf_i src) of
           (r, dst') \<Rightarrow>
             if r \<noteq> 0 then (1, dst', src)
             else (0, dst'\<lparr>buf_a := buf_a dst' @ buf_a src\<rparr>, src\<lparr>buf_a := []\<rparr>))
      else (0, dst\<lparr>buf_a := buf_a dst @ buf_a src\<rparr>, src\<lparr>buf_a := []\<rparr>))"


subsection \<open>The symbol table\<close>

text \<open>
  \<^verbatim>\<open>struct entry\<close>: \<open>entry_name\<close> and \<open>entry_def\<close> are the fields \<^verbatim>\<open>name\<close> and \<^verbatim>\<open>def\<close>
  (\<open>None\<close> is the \<^verbatim>\<open>NULL\<close> definition of a built-in); the \<^verbatim>\<open>next\<close> pointers of a bucket
  make the list of its entries, head first. The table is the array of its
  \<^verbatim>\<open>HASH_TABLE_SIZE\<close> bucket heads.
\<close>

record entry =
  entry_name :: string
  entry_def :: "string option"

type_synonym hash_table = "nat \<Rightarrow> entry list"

fun hash_loop :: "size_t \<Rightarrow> string \<Rightarrow> size_t" where
  "hash_loop h [] = h"
| "hash_loop h (c # str) = hash_loop (h * 33 XOR of_nat (of_char c)) str"

definition hash_str :: "string \<Rightarrow> nat" where
  "hash_str str = unat (hash_loop 5381 str) mod HASH_TABLE_SIZE"

fun lookup_chain :: "string \<Rightarrow> entry list \<Rightarrow> entry option" where
  "lookup_chain nm [] = None"
| "lookup_chain nm (e # es) = (if nm = entry_name e then Some e else lookup_chain nm es)"

definition lookup_entry :: "hash_table \<Rightarrow> string \<Rightarrow> entry option" where
  "lookup_entry ht nm = lookup_chain nm (ht (hash_str nm))"

definition get_def :: "hash_table \<Rightarrow> string \<Rightarrow> string option" where
  "get_def ht nm = (case lookup_entry ht nm of None \<Rightarrow> None | Some e \<Rightarrow> entry_def e)"

text \<open>The update branch of \<^verbatim>\<open>upsert_entry\<close> writes \<^verbatim>\<open>e->def\<close> of the entry found.\<close>

fun update_chain :: "string \<Rightarrow> string option \<Rightarrow> entry list \<Rightarrow> entry list" where
  "update_chain nm d [] = []"
| "update_chain nm d (e # es) =
     (if nm = entry_name e then e\<lparr>entry_def := d\<rparr> # es else e # update_chain nm d es)"

definition strdup_ok :: "allocator \<Rightarrow> string \<Rightarrow> bool" where
  "strdup_ok A str = A (length str + 1)"

definition upsert_entry :: "allocator \<Rightarrow> hash_table \<Rightarrow> string \<Rightarrow> string option
    \<Rightarrow> nat \<times> hash_table" where
  "upsert_entry A ht nm d =
     (case lookup_entry ht nm of
        None \<Rightarrow>
          if \<not> A sizeof_entry then (1, ht)
          else if \<not> strdup_ok A nm then (1, ht)
          else if d \<noteq> None \<and> \<not> strdup_ok A (the d) then (1, ht)
          else (0, ht(hash_str nm := \<lparr>entry_name = nm, entry_def = d\<rparr> # ht (hash_str nm)))
      | Some e \<Rightarrow>
          if d \<noteq> None \<and> \<not> strdup_ok A (the d) then (1, ht)
          else (0, ht(hash_str nm := update_chain nm d (ht (hash_str nm)))))"

text \<open>
  The search loop of \<^verbatim>\<open>delete_entry\<close>: the entries passed (\<^verbatim>\<open>prev\<close> is the last of
  them, \<^verbatim>\<open>NULL\<close> when there is none) and the rest of the chain from \<^verbatim>\<open>e\<close> on.
\<close>

fun delete_search :: "string \<Rightarrow> entry list \<Rightarrow> entry list \<Rightarrow> entry list \<times> entry list" where
  "delete_search nm passed [] = (passed, [])"
| "delete_search nm passed (e # es) =
     (if nm = entry_name e then (passed, e # es) else delete_search nm (passed @ [e]) es)"

definition delete_entry :: "hash_table \<Rightarrow> string \<Rightarrow> nat \<times> hash_table" where
  "delete_entry ht nm =
     (case delete_search nm [] (ht (hash_str nm)) of
        (passed, []) \<Rightarrow> (1, ht)
      | (passed, e # es) \<Rightarrow>
          if passed \<noteq> [] then (0, ht(hash_str nm := passed @ es))
          else (0, ht(hash_str nm := [])))"

text \<open>
  The start of \<^verbatim>\<open>main\<close> defines the built-in macros, in this order, each with a \<^verbatim>\<open>NULL\<close>
  definition, and quits at the first failure (\<^verbatim>\<open>ESYSCMD_MAKETEMP\<close> is 0).
\<close>

definition builtin_names :: "string list" where
  "builtin_names =
     [''define'', ''undefine'', ''changequote'', ''divert'', ''dumpdef'', ''errprint'',
      ''ifdef'', ''ifelse'', ''include'', ''len'', ''index'', ''translit'', ''substr'',
      ''dnl'', ''divnum'', ''undivert'', ''incr'', ''htdist'', ''dirsep'', ''add'',
      ''mult'', ''sub'', ''div'', ''mod'']"

fun define_builtins :: "allocator \<Rightarrow> hash_table \<Rightarrow> string list \<Rightarrow> nat \<times> hash_table" where
  "define_builtins A ht [] = (0, ht)"
| "define_builtins A ht (nm # nms) =
     (case upsert_entry A ht nm None of
        (r, ht') \<Rightarrow> if r \<noteq> 0 then (1, ht') else define_builtins A ht' nms)"

text \<open>The table \<^verbatim>\<open>calloc\<close> returns: every bucket head is \<^verbatim>\<open>NULL\<close>.\<close>

definition empty_table :: hash_table where
  "empty_table = (\<lambda>k. [])"

subsection \<open>Numbers and strings\<close>

definition digit_val :: "char \<Rightarrow> nat" where
  "digit_val c = of_char c - 48"

definition digit_char :: "nat \<Rightarrow> char" where
  "digit_char d = char_of (48 + d)"

text \<open>\<^verbatim>\<open>str_to_num\<close>: \<open>None\<close> is the return value 1, \<open>Some n\<close> is 0 with \<^verbatim>\<open>*num = n\<close>.\<close>

fun str_to_num_loop :: "nat \<Rightarrow> string \<Rightarrow> nat option" where
  "str_to_num_loop n [] = Some n"
| "str_to_num_loop n (ch # str) =
     (if isdigit ch then
        (if MOF n 10 then None
         else if AOF (n * 10) (digit_val ch) then None
         else str_to_num_loop (n * 10 + digit_val ch) str)
      else None)"

definition str_to_num :: "string \<Rightarrow> nat option" where
  "str_to_num str =
     (case str_to_num_loop 0 str of
        None \<Rightarrow> None
      | Some n \<Rightarrow> if length str = 0 then None else Some n)"

text \<open>
  What \<^verbatim>\<open>snprintf(num, NUM_SIZE, "%lu", (unsigned long) n)\<close> writes for a \<^verbatim>\<open>size_t\<close>
  value: its decimal digits (at most 20, so they fit \<^verbatim>\<open>NUM_SIZE\<close>).
\<close>

fun dec :: "nat \<Rightarrow> string" where
  "dec n = (if n < 10 then [digit_char n] else dec (n div 10) @ [digit_char (n mod 10)])"

declare dec.simps [simp del]

text \<open>\<^verbatim>\<open>strstr\<close>: the offset of the first occurrence of the needle, \<open>None\<close> for \<^verbatim>\<open>NULL\<close>.\<close>

fun strstr :: "string \<Rightarrow> string \<Rightarrow> nat option" where
  "strstr [] needle = (if needle = [] then Some 0 else None)"
| "strstr (c # hay) needle =
     (if take (length needle) (c # hay) = needle then Some 0
      else map_option Suc (strstr hay needle))"

fun strip_def :: "string \<Rightarrow> string" where
  "strip_def [] = []"
| "strip_def [ch] = [ch]"
| "strip_def (ch # h # str) =
     (if ch = CHR ''$'' then
        (if isdigit h \<and> h \<noteq> CHR ''0'' then strip_def str
         else ch # strip_def (h # str))
      else ch # strip_def (h # str))"

subsection \<open>Macro calls\<close>

text \<open>
  \<^verbatim>\<open>struct mcall\<close>: \<open>mc_name\<close> and \<open>mc_def\<close> are the fields \<^verbatim>\<open>name\<close> and \<^verbatim>\<open>def\<close>;
  \<open>arg_buf\<close> is the array of ten buffer pointers (\<open>None\<close> is \<^verbatim>\<open>NULL\<close>), of which the
  program uses the indices 0 to 9 only. The \<^verbatim>\<open>next\<close> pointers make the stack a list,
  head first.
\<close>

record mcall =
  mc_name :: string
  mc_def :: "string option"
  bracket_depth :: size_t
  act_arg :: nat
  arg_buf :: "nat \<Rightarrow> buf option"

text \<open>
  \<^verbatim>\<open>init_mcall\<close>: \<^verbatim>\<open>calloc\<close> zeroes the struct (the name is \<^verbatim>\<open>NULL\<close> until \<^verbatim>\<open>main\<close>
  stores a copy of the token in it), then the buffer of argument 1 is made.
\<close>

definition init_mcall :: "allocator \<Rightarrow> mcall option" where
  "init_mcall A =
     (if \<not> A sizeof_mcall then None
      else
        (case init_buf A of
           None \<Rightarrow> None
         | Some b \<Rightarrow>
             Some \<lparr>mc_name = [], mc_def = None, bracket_depth = 0, act_arg = 1,
                   arg_buf = (\<lambda>k. None)(1 := Some b)\<rparr>))"

definition stack_on_mcall :: "allocator \<Rightarrow> mcall list \<Rightarrow> nat \<times> mcall list" where
  "stack_on_mcall A stk =
     (case init_mcall A of None \<Rightarrow> (1, stk) | Some t \<Rightarrow> (0, t # stk))"

definition delete_stack_head :: "mcall list \<Rightarrow> mcall list" where
  "delete_stack_head stk = (case stk of [] \<Rightarrow> [] | m # ms \<Rightarrow> ms)"

text \<open>
  \<^verbatim>\<open>sub_args\<close>, with the string \<^verbatim>\<open>stack->def\<close> as the argument \<open>d\<close>. The look-ahead
  \<^verbatim>\<open>h = *s\<close> at the end of the string is the terminating NUL, which is no digit.
\<close>

fun sub_args_loop :: "allocator \<Rightarrow> buf \<Rightarrow> mcall \<Rightarrow> string \<Rightarrow> nat \<times> buf" where
  "sub_args_loop A res m [] = (0, res)"
| "sub_args_loop A res m [ch] =
     (case ungetch A res ch of
        (r, res') \<Rightarrow> if r = EOF then (1, res') else sub_args_loop A res' m [])"
| "sub_args_loop A res m (ch # h # str) =
     (if ch = CHR ''$'' then
        (if isdigit h \<and> h \<noteq> CHR ''0'' then
           (case arg_buf m (digit_val h) of
              Some b \<Rightarrow>
                (if buf_i b > BUF_FREE_SIZE res then
                   (case grow_buf A res (buf_i b) of
                      (r, res') \<Rightarrow>
                        if r \<noteq> 0 then (1, res')
                        else sub_args_loop A (res'\<lparr>buf_a := buf_a res' @ buf_a b\<rparr>) m str)
                 else sub_args_loop A (res\<lparr>buf_a := buf_a res @ buf_a b\<rparr>) m str)
            | None \<Rightarrow> sub_args_loop A res m str)
         else
           (case ungetch A res ch of
              (r, res') \<Rightarrow> if r = EOF then (1, res') else sub_args_loop A res' m (h # str)))
      else
        (case ungetch A res ch of
           (r, res') \<Rightarrow> if r = EOF then (1, res') else sub_args_loop A res' m (h # str)))"

definition sub_args :: "allocator \<Rightarrow> buf \<Rightarrow> mcall \<Rightarrow> string \<Rightarrow> nat \<times> buf" where
  "sub_args A res m d =
     (case sub_args_loop A (delete_buf res) m d of
        (r, res') \<Rightarrow>
          if r \<noteq> 0 then (1, res')
          else (case ungetch A res' NUL of
                  (r', res'') \<Rightarrow> if r' = EOF then (1, res'') else (0, res'')))"

text \<open>
  \<^verbatim>\<open>terminate_args\<close>: the loop \<^verbatim>\<open>while (*(stack->arg_buf + j) != NULL && j < 10)\<close> from
  \<^verbatim>\<open>j = 1\<close>. With \<^verbatim>\<open>j = 10\<close> the first operand reads one slot past the array; whatever
  it reads, the second operand ends the loop. \<^verbatim>\<open>ungetch\<close> of the NUL returns 0 when
  it succeeds and \<^verbatim>\<open>EOF\<close> when it fails, and the loop tests it for non-zero.
\<close>

function terminate_args_loop :: "allocator \<Rightarrow> mcall \<Rightarrow> nat \<Rightarrow> nat \<times> mcall" where
  "terminate_args_loop A m j =
     (if j < 10 then
        (case arg_buf m j of
           None \<Rightarrow> (0, m)
         | Some b \<Rightarrow>
             (case ungetch A b NUL of
                (r, b') \<Rightarrow>
                  if r \<noteq> 0 then (1, m\<lparr>arg_buf := (arg_buf m)(j := Some b')\<rparr>)
                  else terminate_args_loop A (m\<lparr>arg_buf := (arg_buf m)(j := Some b')\<rparr>) (j + 1)))
      else (0, m))"
  by pat_completeness auto
termination
  by (relation "measure (\<lambda>(A, m, j). 10 - j)") auto

declare terminate_args_loop.simps [simp del]

definition terminate_args :: "allocator \<Rightarrow> mcall \<Rightarrow> nat \<times> mcall" where
  "terminate_args A m = terminate_args_loop A m 1"

text \<open>\<^verbatim>\<open>ARG(n)\<close> on the frame at the head of the stack.\<close>

definition ARG :: "mcall \<Rightarrow> nat \<Rightarrow> string" where
  "ARG m n = (case arg_buf m n of None \<Rightarrow> [] | Some b \<Rightarrow> cstr (buf_a b))"

subsection \<open>Reading\<close>

text \<open>
  The environment of a run: the allocator, whether a read at the end of standard input
  is an error (\<^verbatim>\<open>errno\<close> set) rather than end-of-file, whether \<^verbatim>\<open>fwrite\<close> to standard
  output writes all the bytes it is given, and the regular files that can be read whole,
  by path.
\<close>

record env =
  alloc :: allocator
  stdin_error :: bool
  stdout_ok :: bool
  files :: "string \<Rightarrow> string option"

text \<open>
  \<^verbatim>\<open>getch(b, read_stdin)\<close> on the input buffer and the bytes left on standard input:
  the byte read (\<open>None\<close> is \<^verbatim>\<open>EOF\<close>), whether \<^verbatim>\<open>errno\<close> is set, and what is left.
\<close>

definition getch :: "env \<Rightarrow> buf \<Rightarrow> bool \<Rightarrow> string \<Rightarrow> char option \<times> bool \<times> buf \<times> string" where
  "getch E b rd sin =
     (if buf_i b \<noteq> 0 then (Some (last (buf_a b)), False, b\<lparr>buf_a := butlast (buf_a b)\<rparr>, sin)
      else if rd then
        (case sin of
           [] \<Rightarrow> (None, stdin_error E, b, [])
         | c # cs \<Rightarrow> (Some c, False, b, cs))
      else (None, False, b, sin))"

text \<open>
  The \<^verbatim>\<open>while (1)\<close> loop of \<^verbatim>\<open>getword\<close>. The result is \<open>(ret, err)\<close>, the token buffer,
  the input buffer and standard input, where \<open>ret\<close> is \<open>Some\<close> of the value returned
  from inside the loop and \<open>None\<close> when the loop is left by \<^verbatim>\<open>break\<close>, and \<open>err\<close> is
  the value of \<^verbatim>\<open>*err\<close>, which the caller has set to 0.
\<close>

function getword_loop :: "env \<Rightarrow> buf \<Rightarrow> buf \<Rightarrow> bool \<Rightarrow> string
    \<Rightarrow> (nat option \<times> bool) \<times> buf \<times> buf \<times> string" where
  "getword_loop E tok inp rd sin =
     (case getch E inp rd sin of
        (None, errno, inp', sin') \<Rightarrow> ((Some 1, errno), tok, inp', sin')
      | (Some x, errno, inp', sin') \<Rightarrow>
          if \<not> (isalnum x \<or> x = CHR ''_'') then
            (case ungetch (alloc E) inp' x of
               (r, inp'') \<Rightarrow>
                 if r = EOF then ((Some 1, True), tok, inp'', sin')
                 else ((None, False), tok, inp'', sin'))
          else
            (case ungetch (alloc E) tok x of
               (r, tok') \<Rightarrow>
                 if r = EOF then ((Some 1, True), tok', inp', sin')
                 else getword_loop E tok' inp' rd sin'))"
  by pat_completeness auto
termination
  by (relation "measure (\<lambda>(E, tok, inp, rd, sin). length (buf_a inp) + length sin)")
    (auto simp: getch_def buf_i_def split: if_splits list.splits)

declare getword_loop.simps [simp del]

definition getword :: "env \<Rightarrow> buf \<Rightarrow> buf \<Rightarrow> bool \<Rightarrow> string
    \<Rightarrow> (nat \<times> bool) \<times> buf \<times> buf \<times> string" where
  "getword E tok inp rd sin =
     (case getch E inp rd sin of
        (None, errno, inp', sin') \<Rightarrow> ((1, errno), delete_buf tok, inp', sin')
      | (Some x, errno, inp', sin') \<Rightarrow>
          (case ungetch (alloc E) (delete_buf tok) x of
             (r, tok1) \<Rightarrow>
               if r = EOF then ((1, False), tok1, inp', sin')
               else
                 (case (if isalpha x \<or> x = CHR ''_'' then getword_loop E tok1 inp' rd sin'
                        else ((None, False), tok1, inp', sin')) of
                    ((Some ret, err), tok2, inp2, sin2) \<Rightarrow> ((ret, err), tok2, inp2, sin2)
                  | ((None, err), tok2, inp2, sin2) \<Rightarrow>
                      (case ungetch (alloc E) tok2 NUL of
                         (r', tok3) \<Rightarrow>
                           if r' = EOF then ((1, True), tok3, inp2, sin2)
                           else ((0, False), tok3, inp2, sin2)))))"

text \<open>
  \<^verbatim>\<open>include\<close>: the file is stored reversed above the fill index, so that its first
  byte is read first. Any failure of \<^verbatim>\<open>stat\<close>, \<^verbatim>\<open>fopen\<close>, \<^verbatim>\<open>getc\<close> or \<^verbatim>\<open>fclose\<close>, and a
  path that is no regular file, is a path outside \<open>files\<close>.
\<close>

definition filesize :: "env \<Rightarrow> string \<Rightarrow> nat option" where
  "filesize E fn = (case files E fn of None \<Rightarrow> None | Some bytes \<Rightarrow> Some (length bytes))"

definition include_file :: "env \<Rightarrow> buf \<Rightarrow> string \<Rightarrow> nat \<times> buf" where
  "include_file E b fn =
     (case filesize E fn of
        None \<Rightarrow> (1, b)
      | Some fs \<Rightarrow>
          (if fs > BUF_FREE_SIZE b then
             (case grow_buf (alloc E) b fs of
                (r, b') \<Rightarrow>
                  if r \<noteq> 0 then (1, b')
                  else (case files E fn of
                          None \<Rightarrow> (1, b')
                        | Some bytes \<Rightarrow> (0, b'\<lparr>buf_a := buf_a b' @ rev bytes\<rparr>)))
           else (case files E fn of
                   None \<Rightarrow> (1, b)
                 | Some bytes \<Rightarrow> (0, b\<lparr>buf_a := buf_a b @ rev bytes\<rparr>))))"

subsection \<open>The state of \<^verbatim>\<open>main\<close>\<close>

text \<open>
  \<^verbatim>\<open>output\<close> points to one of the diversion buffers or to an argument buffer of the
  frame at the head of the stack: \<open>OutDiv k\<close> is \<^verbatim>\<open>*(diversion + k)\<close> and \<open>OutArg k\<close> is
  \<^verbatim>\<open>*(stack->arg_buf + k)\<close>.
\<close>

datatype out_ref = OutDiv nat | OutArg nat

text \<open>
  The local variables of \<^verbatim>\<open>main\<close> that live across iterations of its loop, under
  their names, with the bytes left on standard input and the bytes written to standard
  output and standard error so far. \<open>diversion\<close> is the array of the 11 diversion
  buffers, used at the indices 0 to 10 only.
\<close>

record m4_state =
  "input" :: buf
  token :: buf
  next_token :: buf
  result :: buf
  ht :: hash_table
  quote_on :: bool
  quote_depth :: size_t
  act_div :: nat
  diversion :: "nat \<Rightarrow> buf"
  "output" :: out_ref
  left_quote :: char
  right_quote :: char
  stack :: "mcall list"
  read_stdin :: bool
  stdin :: string
  stdout :: string
  stderr :: string

text \<open>
  What a piece of the loop body does to the state: it goes on (\<open>Next\<close>), jumps to
  \<^verbatim>\<open>end_of_input\<close>, runs \<^verbatim>\<open>QUIT\<close> (\<^verbatim>\<open>ret = 1; goto clean_up\<close>), or uses a pointer or an
  index that C leaves undefined.
\<close>

datatype outcome = Next m4_state | End_Of_Input m4_state | Quit m4_state | Undefined

definition then_do :: "outcome \<Rightarrow> (m4_state \<Rightarrow> outcome) \<Rightarrow> outcome" where
  "then_do r f = (case r of Next st \<Rightarrow> f st | End_Of_Input st \<Rightarrow> End_Of_Input st
     | Quit st \<Rightarrow> Quit st | Undefined \<Rightarrow> Undefined)"

definition TS :: "m4_state \<Rightarrow> string" where
  "TS st = cstr (buf_a (token st))"

definition NTS :: "m4_state \<Rightarrow> string" where
  "NTS st = cstr (buf_a (next_token st))"

definition SET_OUTPUT :: "m4_state \<Rightarrow> m4_state" where
  "SET_OUTPUT st =
     st\<lparr>output := (case stack st of [] \<Rightarrow> OutDiv (act_div st) | m # ms \<Rightarrow> OutArg (act_arg m))\<rparr>"

text \<open>\<^verbatim>\<open>EMSG(m)\<close> and \<^verbatim>\<open>EQUIT(m)\<close>.\<close>

definition EMSG :: "string \<Rightarrow> m4_state \<Rightarrow> m4_state" where
  "EMSG msg st = st\<lparr>stderr := stderr st @ msg @ [CHR 0x0A]\<rparr>"

definition EQUIT :: "string \<Rightarrow> m4_state \<Rightarrow> outcome" where
  "EQUIT msg st = Quit (EMSG msg st)"

text \<open>\<^verbatim>\<open>if (put_str(output, s)) QUIT;\<close> through the pointer \<^verbatim>\<open>output\<close>.\<close>

definition put_output :: "env \<Rightarrow> string \<Rightarrow> m4_state \<Rightarrow> outcome" where
  "put_output E str st =
     (case output st of
        OutDiv k \<Rightarrow>
          (case put_str (alloc E) (diversion st k) str of
             (r, b') \<Rightarrow>
               if r \<noteq> 0 then Quit (st\<lparr>diversion := (diversion st)(k := b')\<rparr>)
               else Next (st\<lparr>diversion := (diversion st)(k := b')\<rparr>))
      | OutArg k \<Rightarrow>
          (case stack st of
             [] \<Rightarrow> Undefined
           | m # ms \<Rightarrow>
               (case arg_buf m k of
                  None \<Rightarrow> Undefined
                | Some b \<Rightarrow>
                    (case put_str (alloc E) b str of
                       (r, b') \<Rightarrow>
                         if r \<noteq> 0
                         then Quit (st\<lparr>stack := m\<lparr>arg_buf := (arg_buf m)(k := Some b')\<rparr> # ms\<rparr>)
                         else Next (st\<lparr>stack := m\<lparr>arg_buf := (arg_buf m)(k := Some b')\<rparr> # ms\<rparr>)))))"

text \<open>\<^verbatim>\<open>if (ungetstr(input, s)) QUIT;\<close>\<close>

definition unget_input :: "env \<Rightarrow> string \<Rightarrow> m4_state \<Rightarrow> outcome" where
  "unget_input E str st =
     (case ungetstr (alloc E) (input st) str of
        (r, b') \<Rightarrow> if r \<noteq> 0 then Quit (st\<lparr>input := b'\<rparr>) else Next (st\<lparr>input := b'\<rparr>))"

text \<open>
  \<^verbatim>\<open>OUT_DIV(n)\<close>: a failed \<^verbatim>\<open>fwrite\<close> quits; what it has written by then is not
  modelled.
\<close>

definition OUT_DIV :: "env \<Rightarrow> nat \<Rightarrow> m4_state \<Rightarrow> outcome" where
  "OUT_DIV E n st =
     (if buf_i (diversion st n) \<noteq> 0 \<and> \<not> stdout_ok E then Quit st
      else Next (st\<lparr>stdout := stdout st @ buf_a (diversion st n),
                    diversion := (diversion st)(n := delete_buf (diversion st n))\<rparr>))"

fun OUT_DIVS :: "env \<Rightarrow> nat list \<Rightarrow> m4_state \<Rightarrow> outcome" where
  "OUT_DIVS E [] st = Next st"
| "OUT_DIVS E (k # ks) st = then_do (OUT_DIV E k st) (OUT_DIVS E ks)"

text \<open>\<^verbatim>\<open>UNDIVERT_ALL\<close>: \<^verbatim>\<open>for (k = 0; k < 10; k++) OUT_DIV(k)\<close>.\<close>

definition UNDIVERT_ALL :: "env \<Rightarrow> m4_state \<Rightarrow> outcome" where
  "UNDIVERT_ALL E st = OUT_DIVS E [0, 1, 2, 3, 4, 5, 6, 7, 8, 9] st"

definition WS :: "string \<Rightarrow> bool" where
  "WS str = (str = '' '' \<or> str = [CHR 0x09] \<or> str = [CHR 0x0A] \<or> str = [CHR 0x0D])"

text \<open>
  \<^verbatim>\<open>READ_TOKEN(t)\<close>, for \<^verbatim>\<open>t = next_token\<close> when \<open>nx\<close> holds and for \<^verbatim>\<open>t = token\<close>
  otherwise.
\<close>

definition READ_TOKEN :: "env \<Rightarrow> bool \<Rightarrow> m4_state \<Rightarrow> outcome" where
  "READ_TOKEN E nx st =
     (case getword E (if nx then next_token st else token st) (input st) (read_stdin st)
             (stdin st) of
        ((ret, err), tok', inp', sin') \<Rightarrow>
          (let st' = (if nx then st\<lparr>next_token := tok', input := inp', stdin := sin'\<rparr>
                      else st\<lparr>token := tok', input := inp', stdin := sin'\<rparr>)
           in if ret \<noteq> 0 then (if err then Quit st' else End_Of_Input st') else Next st'))"



lemma getch_pending:
  "getch E b rd sin = (Some x, errno, b', sin') \<Longrightarrow>
     length (buf_a b) + length sin = Suc (length (buf_a b') + length sin')"
  by (auto simp: getch_def buf_i_def split: if_splits list.splits)

lemma getch_pending_le:
  "getch E b rd sin = (x, errno, b', sin') \<Longrightarrow>
     length (buf_a b') + length sin' \<le> length (buf_a b) + length sin"
  by (auto simp: getch_def buf_i_def split: if_splits list.splits)

lemma ungetch_length:
  "ungetch A b ch = (r, b') \<Longrightarrow> length (buf_a b') \<le> Suc (length (buf_a b))"
  by (auto simp: ungetch_def grow_buf_def split: if_splits)

lemma getword_loop_pending:
  "getword_loop E tok inp rd sin = (res, tok', inp', sin') \<Longrightarrow>
     length (buf_a inp') + length sin' \<le> length (buf_a inp) + length sin"
proof (induction E tok inp rd sin rule: getword_loop.induct)
  case (1 E tok inp rd sin)
  obtain x errno inp1 sin1 where g: "getch E inp rd sin = (x, errno, inp1, sin1)"
    by (metis prod_cases4)
  show ?case
  proof (cases x)
    case None
    with g "1.prems" getch_pending_le [OF g] show ?thesis
      by (simp add: getword_loop.simps [of E tok inp rd sin])
  next
    case (Some c)
    note gs = g [unfolded Some]
    have dec: "length (buf_a inp) + length sin = Suc (length (buf_a inp1) + length sin1)"
      by (rule getch_pending [OF gs])
    show ?thesis
    proof (cases "isalnum c \<or> c = CHR ''_''")
      case False
      obtain r inp2 where u: "ungetch (alloc E) inp1 c = (r, inp2)"
        by (cases "ungetch (alloc E) inp1 c")
      from ungetch_length [OF u] gs u False "1.prems" dec show ?thesis
        by (auto simp: getword_loop.simps [of E tok inp rd sin] split: if_splits)
    next
      case True
      obtain r tok1 where u: "ungetch (alloc E) tok c = (r, tok1)"
        by (cases "ungetch (alloc E) tok c")
      show ?thesis
      proof (cases "r = EOF")
        case True
        with gs u \<open>isalnum c \<or> c = CHR ''_''\<close> "1.prems" dec show ?thesis
          by (auto simp: getword_loop.simps [of E tok inp rd sin])
      next
        case False
        with gs u \<open>isalnum c \<or> c = CHR ''_''\<close> "1.prems"
        have rec: "getword_loop E tok1 inp1 rd sin1 = (res, tok', inp', sin')"
          by (auto simp: getword_loop.simps [of E tok inp rd sin])
        have "length (buf_a inp') + length sin' \<le> length (buf_a inp1) + length sin1"
          using "1.IH" [OF gs [symmetric] refl refl refl _ u [symmetric] False rec]
            \<open>isalnum c \<or> c = CHR ''_''\<close> by simp
        with dec show ?thesis by simp
      qed
    qed
  qed
qed

lemma getword_pending:
  assumes "getword E tok inp rd sin = ((0, err), tok', inp', sin')"
  shows "length (buf_a inp') + length sin' < length (buf_a inp) + length sin"
proof -
  obtain x errno inp1 sin1 where g: "getch E inp rd sin = (x, errno, inp1, sin1)"
    by (metis prod_cases4)
  show ?thesis
  proof (cases x)
    case None
    with g assms show ?thesis by (simp add: getword_def)
  next
    case (Some c)
    note gs = g [unfolded Some]
    have dec: "length (buf_a inp) + length sin = Suc (length (buf_a inp1) + length sin1)"
      by (rule getch_pending [OF gs])
    obtain r tok1 where u: "ungetch (alloc E) (delete_buf tok) c = (r, tok1)"
      by (cases "ungetch (alloc E) (delete_buf tok) c")
    show ?thesis
    proof (cases "isalpha c \<or> c = CHR ''_''")
      case False
      with gs u assms dec show ?thesis
        by (auto simp: getword_def split: if_splits prod.splits)
    next
      case True
      obtain res tok2 inp2 sin2 where
        l: "getword_loop E tok1 inp1 rd sin1 = (res, tok2, inp2, sin2)"
        by (metis prod_cases4)
      from getword_loop_pending [OF l] gs u assms dec True l show ?thesis
        by (auto simp: getword_def split: if_splits prod.splits option.splits)
    qed
  qed
qed

lemma READ_TOKEN_pending:
  "READ_TOKEN E nx st = Next st' \<Longrightarrow>
     length (buf_a (input st')) + length (stdin st')
       < length (buf_a (input st)) + length (stdin st)"
  by (auto simp: READ_TOKEN_def Let_def split: prod.splits if_splits dest: getword_pending)

text \<open>\<^verbatim>\<open>EAT_WS\<close>: \<^verbatim>\<open>do READ_TOKEN(next_token); while (WS(NTS));\<close> and the push back.\<close>

function EAT_WS_loop :: "env \<Rightarrow> m4_state \<Rightarrow> outcome" where
  "EAT_WS_loop E st =
     (case READ_TOKEN E True st of
        Next st' \<Rightarrow> if WS (NTS st') then EAT_WS_loop E st' else Next st'
      | End_Of_Input st' \<Rightarrow> End_Of_Input st'
      | Quit st' \<Rightarrow> Quit st'
      | Undefined \<Rightarrow> Undefined)"
  by pat_completeness auto
termination
  by (relation "measure (\<lambda>(E, st). length (buf_a (input st)) + length (stdin st))")
    (auto dest: READ_TOKEN_pending)

declare EAT_WS_loop.simps [simp del]

definition EAT_WS :: "env \<Rightarrow> m4_state \<Rightarrow> outcome" where
  "EAT_WS E st = then_do (EAT_WS_loop E st) (\<lambda>st'. unget_input E (NTS st') st')"

text \<open>\<^verbatim>\<open>DNL\<close>: \<^verbatim>\<open>do READ_TOKEN(next_token); while (strcmp(NTS, "\n"));\<close>\<close>

function DNL :: "env \<Rightarrow> m4_state \<Rightarrow> outcome" where
  "DNL E st =
     (case READ_TOKEN E True st of
        Next st' \<Rightarrow> if NTS st' \<noteq> [CHR 0x0A] then DNL E st' else Next st'
      | End_Of_Input st' \<Rightarrow> End_Of_Input st'
      | Quit st' \<Rightarrow> Quit st'
      | Undefined \<Rightarrow> Undefined)"
  by pat_completeness auto
termination
  by (relation "measure (\<lambda>(E, st). length (buf_a (input st)) + length (stdin st))")
    (auto dest: READ_TOKEN_pending)

declare DNL.simps [simp del]

definition DIVNUM :: "env \<Rightarrow> m4_state \<Rightarrow> outcome" where
  "DIVNUM E st = unget_input E (if act_div st = 10 then ''-1'' else dec (act_div st)) st"

definition DIRSEP :: string where
  "DIRSEP = ''/''"

text \<open>
  \<^verbatim>\<open>ISMACRO(s)\<close>: \<open>Some e\<close> when the macro holds, with the entry it leaves in \<^verbatim>\<open>e\<close>. The
  first byte of an empty string is its NUL, which is no letter.
\<close>

definition ISMACRO :: "hash_table \<Rightarrow> string \<Rightarrow> entry option" where
  "ISMACRO tbl str =
     (case str of
        [] \<Rightarrow> None
      | c # cs \<Rightarrow> if isalpha c \<or> c = CHR ''_'' then lookup_entry tbl str else None)"

subsection \<open>Built-in macros\<close>

text \<open>
  \<^verbatim>\<open>htdist\<close>: what it prints. \<open>htdist_freq tbl c\<close> is \<^verbatim>\<open>freq[c]\<close> after the first loop:
  the number of buckets with \<open>c\<close> entries, and for \<open>c = 100\<close> with 100 entries or more.
\<close>

definition htdist_freq :: "hash_table \<Rightarrow> nat \<Rightarrow> nat" where
  "htdist_freq tbl c =
     length (filter (\<lambda>k. if c < 100 then length (tbl k) = c else 100 \<le> length (tbl k))
       [0 ..< HASH_TABLE_SIZE])"

definition htdist :: "hash_table \<Rightarrow> string" where
  "htdist tbl =
     ''entries_per_bucket number_of_buckets'' @ [CHR 0x0A]
     @ concat (map (\<lambda>k. if htdist_freq tbl k \<noteq> 0
                         then dec k @ '' '' @ dec (htdist_freq tbl k) @ [CHR 0x0A] else [])
                [0 ..< 100])
     @ (if htdist_freq tbl 100 \<noteq> 0 then ''>=100 '' @ dec (htdist_freq tbl 100) @ [CHR 0x0A]
        else [])"

text \<open>The test \<^verbatim>\<open>strlen(ARG(k)) == 1 && isdigit(*ARG(k)) && *ARG(k) != '0'\<close>.\<close>

definition held_div :: "string \<Rightarrow> bool" where
  "held_div str = (case str of [c] \<Rightarrow> isdigit c \<and> c \<noteq> CHR ''0'' | _ \<Rightarrow> False)"

text \<open>The two loops of \<^verbatim>\<open>undivert\<close> with arguments, over \<^verbatim>\<open>k = 1, ..., 9\<close>.\<close>

fun undivert_out :: "env \<Rightarrow> mcall \<Rightarrow> nat list \<Rightarrow> m4_state \<Rightarrow> outcome" where
  "undivert_out E m [] st = Next st"
| "undivert_out E m (k # ks) st =
     (if held_div (ARG m k)
      then then_do (OUT_DIV E (digit_val (first_byte (ARG m k))) st) (undivert_out E m ks)
      else undivert_out E m ks st)"

fun undivert_dump :: "env \<Rightarrow> mcall \<Rightarrow> nat list \<Rightarrow> m4_state \<Rightarrow> outcome" where
  "undivert_dump E m [] st = Next st"
| "undivert_dump E m (k # ks) st =
     (if held_div (ARG m k) \<and> digit_val (first_byte (ARG m k)) \<noteq> act_div st then
        (case buf_dump_buf (alloc E) (diversion st (act_div st))
                (diversion st (digit_val (first_byte (ARG m k)))) of
           (r, dst, src) \<Rightarrow>
             if r \<noteq> 0 then Quit st
             else undivert_dump E m ks
                    (st\<lparr>diversion := (diversion st)
                          (act_div st := dst, digit_val (first_byte (ARG m k)) := src)\<rparr>))
      else undivert_dump E m ks st)"

text \<open>
  \<^verbatim>\<open>translit\<close>. \<open>map\<close> is the array \<^verbatim>\<open>int map[UCHAR_MAX]\<close>: a list of \<^verbatim>\<open>UCHAR_MAX\<close> slots,
  all set to -1 by the first loop. \<^verbatim>\<open>*(map + uc)\<close> with \<open>uc\<close> beyond the last slot is
  outside the array: \<open>None\<close>. \<open>translit_pairs\<close> is the loop over the two strings in
  parallel, which leaves the bytes of the first string that have no partner;
  \<open>translit_rest\<close> is the loop that maps those to NUL; \<open>translit_apply\<close> is the loop
  over \<^verbatim>\<open>ARG(1)\<close>.
\<close>

definition translit_init :: "int list" where
  "translit_init = replicate UCHAR_MAX (- 1)"

fun translit_pairs :: "int list \<Rightarrow> string \<Rightarrow> string \<Rightarrow> (int list \<times> string) option" where
  "translit_pairs mp [] q = Some (mp, [])"
| "translit_pairs mp (uc # p) [] = Some (mp, uc # p)"
| "translit_pairs mp (uc # p) (uc2 # q) =
     (if of_char uc < length mp then
        translit_pairs (if mp ! of_char uc = - 1 then mp[of_char uc := of_char uc2] else mp) p q
      else None)"

fun translit_rest :: "int list \<Rightarrow> string \<Rightarrow> int list option" where
  "translit_rest mp [] = Some mp"
| "translit_rest mp (uc # p) =
     (if of_char uc < length mp then translit_rest (mp[of_char uc := 0]) p else None)"

fun translit_apply :: "int list \<Rightarrow> string \<Rightarrow> string option" where
  "translit_apply mp [] = Some []"
| "translit_apply mp (uc # p) =
     (if of_char uc < length mp then
        (case translit_apply mp p of
           None \<Rightarrow> None
         | Some out \<Rightarrow>
             Some (if mp ! of_char uc = - 1 then uc # out
                   else if mp ! of_char uc \<noteq> 0 then char_of (mp ! of_char uc) # out
                   else out))
      else None)"

definition translit :: "env \<Rightarrow> mcall \<Rightarrow> m4_state \<Rightarrow> outcome" where
  "translit E m st =
     (case translit_pairs translit_init (ARG m 2) (ARG m 3) of
        None \<Rightarrow> Undefined
      | Some (mp, rest) \<Rightarrow>
          (case translit_rest mp rest of
             None \<Rightarrow> Undefined
           | Some mp' \<Rightarrow>
               if \<not> strdup_ok (alloc E) (ARG m 1) then Quit st
               else (case translit_apply mp' (ARG m 1) of
                       None \<Rightarrow> Undefined
                     | Some out \<Rightarrow> unget_input E out st)))"

text \<open>
  The arithmetic built-ins: the loops over \<^verbatim>\<open>k\<close>, with the arguments as a function of
  \<open>k\<close>. \<open>Inl\<close> is the message of the \<^verbatim>\<open>EQUIT\<close> taken, \<open>Inr\<close> the final \<open>w\<close>.
\<close>

fun add_loop :: "(nat \<Rightarrow> string) \<Rightarrow> nat \<Rightarrow> nat list \<Rightarrow> string + nat" where
  "add_loop arg w [] = Inr w"
| "add_loop arg w (k # ks) =
     (if arg k \<noteq> [] then
        (case str_to_num (arg k) of
           None \<Rightarrow> Inl ''add: Invalid number''
         | Some n \<Rightarrow>
             if AOF w n then Inl ''add: Integer overflow'' else add_loop arg (w + n) ks)
      else add_loop arg w ks)"

fun mult_loop :: "(nat \<Rightarrow> string) \<Rightarrow> nat \<Rightarrow> nat list \<Rightarrow> string + nat" where
  "mult_loop arg w [] = Inr w"
| "mult_loop arg w (k # ks) =
     (if arg k \<noteq> [] then
        (case str_to_num (arg k) of
           None \<Rightarrow> Inl ''mult: Invalid number''
         | Some n \<Rightarrow>
             if MOF w n then Inl ''mult: Integer overflow'' else mult_loop arg (w * n) ks)
      else mult_loop arg w ks)"

fun sub_loop :: "(nat \<Rightarrow> string) \<Rightarrow> nat \<Rightarrow> nat list \<Rightarrow> string + nat" where
  "sub_loop arg w [] = Inr w"
| "sub_loop arg w (k # ks) =
     (if arg k \<noteq> [] then
        (case str_to_num (arg k) of
           None \<Rightarrow> Inl ''sub: Invalid number''
         | Some n \<Rightarrow>
             if n > w then Inl ''sub: Integer underflow'' else sub_loop arg (w - n) ks)
      else sub_loop arg w ks)"

fun div_loop :: "(nat \<Rightarrow> string) \<Rightarrow> nat \<Rightarrow> nat list \<Rightarrow> string + nat" where
  "div_loop arg w [] = Inr w"
| "div_loop arg w (k # ks) =
     (if arg k \<noteq> [] then
        (case str_to_num (arg k) of
           None \<Rightarrow> Inl ''div: Invalid number''
         | Some n \<Rightarrow>
             if n = 0 then Inl ''div: Divide by zero'' else div_loop arg (w div n) ks)
      else div_loop arg w ks)"

fun mod_loop :: "(nat \<Rightarrow> string) \<Rightarrow> nat \<Rightarrow> nat list \<Rightarrow> string + nat" where
  "mod_loop arg w [] = Inr w"
| "mod_loop arg w (k # ks) =
     (if arg k \<noteq> [] then
        (case str_to_num (arg k) of
           None \<Rightarrow> Inl ''mod: Invalid number''
         | Some n \<Rightarrow>
             if n = 0 then Inl ''mod: Modulo by zero'' else mod_loop arg (w mod n) ks)
      else mod_loop arg w ks)"

definition bi_add :: "(nat \<Rightarrow> string) \<Rightarrow> string + nat" where
  "bi_add arg = add_loop arg 0 [1, 2, 3, 4, 5, 6, 7, 8, 9]"

definition bi_mult :: "(nat \<Rightarrow> string) \<Rightarrow> string + nat" where
  "bi_mult arg = mult_loop arg 1 [1, 2, 3, 4, 5, 6, 7, 8, 9]"

definition bi_sub :: "(nat \<Rightarrow> string) \<Rightarrow> string + nat" where
  "bi_sub arg =
     (if arg 1 = [] then Inl ''sub: Argument 1 must be used''
      else (case str_to_num (arg 1) of
              None \<Rightarrow> Inl ''sub: Invalid number''
            | Some w \<Rightarrow> sub_loop arg w [2, 3, 4, 5, 6, 7, 8, 9]))"

definition bi_div :: "(nat \<Rightarrow> string) \<Rightarrow> string + nat" where
  "bi_div arg =
     (if arg 1 = [] then Inl ''div: Argument 1 must be used''
      else (case str_to_num (arg 1) of
              None \<Rightarrow> Inl ''div: Invalid number''
            | Some w \<Rightarrow> div_loop arg w [2, 3, 4, 5, 6, 7, 8, 9]))"

definition bi_mod :: "(nat \<Rightarrow> string) \<Rightarrow> string + nat" where
  "bi_mod arg =
     (if arg 1 = [] then Inl ''mod: Argument 1 must be used''
      else (case str_to_num (arg 1) of
              None \<Rightarrow> Inl ''mod: Invalid number''
            | Some w \<Rightarrow> mod_loop arg w [2, 3, 4, 5, 6, 7, 8, 9]))"

text \<open>The end of each arithmetic branch: \<^verbatim>\<open>EQUIT\<close>, or \<^verbatim>\<open>snprintf\<close> and \<^verbatim>\<open>ungetstr\<close>.\<close>

definition push_num :: "env \<Rightarrow> string + nat \<Rightarrow> m4_state \<Rightarrow> outcome" where
  "push_num E r st = (case r of Inl msg \<Rightarrow> EQUIT msg st | Inr w \<Rightarrow> unget_input E (dec w) st)"

text \<open>The branches of \<^verbatim>\<open>PROCESS_BI_WITH_ARGS\<close> that are longer than a line.\<close>

definition changequote :: "mcall \<Rightarrow> m4_state \<Rightarrow> outcome" where
  "changequote m st =
     (if length (ARG m 1) \<noteq> 1 \<or> length (ARG m 2) \<noteq> 1
         \<or> first_byte (ARG m 1) = first_byte (ARG m 2)
         \<or> \<not> isgraph (first_byte (ARG m 1)) \<or> \<not> isgraph (first_byte (ARG m 2))
         \<or> first_byte (ARG m 1) = CHR ''('' \<or> first_byte (ARG m 2) = CHR ''(''
         \<or> first_byte (ARG m 1) = CHR '')'' \<or> first_byte (ARG m 2) = CHR '')''
         \<or> first_byte (ARG m 1) = CHR '','' \<or> first_byte (ARG m 2) = CHR '',''
      then EQUIT (''changequote: quotes must be different single graph chars''
                  @ '' that cannot a comma or parentheses'') st
      else Next (st\<lparr>left_quote := first_byte (ARG m 1), right_quote := first_byte (ARG m 2)\<rparr>))"

definition divert :: "mcall \<Rightarrow> m4_state \<Rightarrow> outcome" where
  "divert m st =
     (if length (ARG m 1) = 1 \<and> isdigit (first_byte (ARG m 1))
      then Next (SET_OUTPUT (st\<lparr>act_div := digit_val (first_byte (ARG m 1))\<rparr>))
      else if ARG m 1 = ''-1'' then Next (SET_OUTPUT (st\<lparr>act_div := 10\<rparr>))
      else EQUIT ''divert: Diversion number must be 0 to 9 or -1'' st)"

definition dumpdef_line :: "hash_table \<Rightarrow> string \<Rightarrow> string" where
  "dumpdef_line tbl str =
     (case ISMACRO tbl str of
        Some e \<Rightarrow>
          str @ '': '' @ (case entry_def e of None \<Rightarrow> ''built-in'' | Some d \<Rightarrow> d) @ [CHR 0x0A]
      | None \<Rightarrow> if first_byte str \<noteq> NUL then str @ '': undefined'' @ [CHR 0x0A] else [])"

definition dumpdef :: "mcall \<Rightarrow> m4_state \<Rightarrow> outcome" where
  "dumpdef m st =
     Next (st\<lparr>stderr := stderr st
       @ concat (map (\<lambda>k. dumpdef_line (ht st) (ARG m k)) [1, 2, 3, 4, 5, 6, 7, 8, 9])\<rparr>)"

definition errprint :: "mcall \<Rightarrow> m4_state \<Rightarrow> outcome" where
  "errprint m st =
     Next (st\<lparr>stderr := stderr st
       @ concat (map (\<lambda>k. if first_byte (ARG m k) \<noteq> NUL then ARG m k @ [CHR 0x0A] else [])
           [1, 2, 3, 4, 5, 6, 7, 8, 9])\<rparr>)"

definition bi_include :: "env \<Rightarrow> mcall \<Rightarrow> m4_state \<Rightarrow> outcome" where
  "bi_include E m st =
     (case include_file E (input st) (ARG m 1) of
        (r, b') \<Rightarrow>
          if r \<noteq> 0
          then Quit (st\<lparr>input := b',
                 stderr := stderr st @ ''include: Failed to include file: '' @ ARG m 1
                   @ [CHR 0x0A]\<rparr>)
          else Next (st\<lparr>input := b'\<rparr>))"

definition bi_index :: "env \<Rightarrow> mcall \<Rightarrow> m4_state \<Rightarrow> outcome" where
  "bi_index E m st =
     unget_input E (case strstr (ARG m 1) (ARG m 2) of None \<Rightarrow> ''-1'' | Some k \<Rightarrow> dec k) st"

text \<open>
  \<^verbatim>\<open>substr\<close>: \<^verbatim>\<open>snprintf(tmp_str, MIN(len + 1, n + 1), "%s", ARG(1) + w)\<close> writes the
  first \<^verbatim>\<open>MIN(len + 1, n + 1) - 1\<close> bytes of the string from offset \<open>w\<close>.
\<close>

definition substr :: "env \<Rightarrow> mcall \<Rightarrow> m4_state \<Rightarrow> outcome" where
  "substr E m st =
     (if length (ARG m 1) \<noteq> 0 then
        (case str_to_num (ARG m 2) of
           None \<Rightarrow> EQUIT ''substr: Invalid index or length'' st
         | Some w \<Rightarrow>
             (case str_to_num (ARG m 3) of
                None \<Rightarrow> EQUIT ''substr: Invalid index or length'' st
              | Some n \<Rightarrow>
                  if w < length (ARG m 1) then
                    (if \<not> alloc E (length (ARG m 1) + 1) then Quit st
                     else if AOF n 1 then Quit st
                     else unget_input E
                            (take (min (length (ARG m 1) + 1) (n + 1) - 1) (drop w (ARG m 1))) st)
                  else Next st))
      else Next st)"

definition undivert :: "env \<Rightarrow> mcall \<Rightarrow> m4_state \<Rightarrow> outcome" where
  "undivert E m st =
     (if act_div st = 0 then undivert_out E m [1, 2, 3, 4, 5, 6, 7, 8, 9] st
      else undivert_dump E m [1, 2, 3, 4, 5, 6, 7, 8, 9] st)"

definition incr :: "env \<Rightarrow> mcall \<Rightarrow> m4_state \<Rightarrow> outcome" where
  "incr E m st =
     (case str_to_num (ARG m 1) of
        None \<Rightarrow> EQUIT ''incr: Invalid number'' st
      | Some n \<Rightarrow>
          if AOF n 1 then EQUIT ''incr: Integer overflow'' st
          else unget_input E (dec (n + 1)) st)"

text \<open>
  \<^verbatim>\<open>PROCESS_BI_WITH_ARGS\<close>, on the frame \<open>m\<close> at the head of the stack (\<^verbatim>\<open>SN\<close> is its
  name).
\<close>

definition PROCESS_BI_WITH_ARGS :: "env \<Rightarrow> mcall \<Rightarrow> m4_state \<Rightarrow> outcome" where
  "PROCESS_BI_WITH_ARGS E m st =
     (if mc_name m = ''define'' then
        (case upsert_entry (alloc E) (ht st) (ARG m 1) (Some (ARG m 2)) of
           (r, tbl) \<Rightarrow> if r \<noteq> 0 then Quit (st\<lparr>ht := tbl\<rparr>) else Next (st\<lparr>ht := tbl\<rparr>))
      else if mc_name m = ''undefine'' then
        (case delete_entry (ht st) (ARG m 1) of
           (r, tbl) \<Rightarrow> if r \<noteq> 0 then Quit (st\<lparr>ht := tbl\<rparr>) else Next (st\<lparr>ht := tbl\<rparr>))
      else if mc_name m = ''changequote'' then changequote m st
      else if mc_name m = ''divert'' then divert m st
      else if mc_name m = ''dumpdef'' then dumpdef m st
      else if mc_name m = ''errprint'' then errprint m st
      else if mc_name m = ''ifdef'' then
        unget_input E (if ISMACRO (ht st) (ARG m 1) \<noteq> None then ARG m 2 else ARG m 3) st
      else if mc_name m = ''ifelse'' then
        unget_input E (if ARG m 1 = ARG m 2 then ARG m 3 else ARG m 4) st
      else if mc_name m = ''include'' then bi_include E m st
      else if mc_name m = ''len'' then unget_input E (dec (length (ARG m 1))) st
      else if mc_name m = ''index'' then bi_index E m st
      else if mc_name m = ''translit'' then translit E m st
      else if mc_name m = ''substr'' then substr E m st
      else if mc_name m = ''undivert'' then undivert E m st
      else if mc_name m = ''dnl'' then DNL E st
      else if mc_name m = ''divnum'' then DIVNUM E st
      else if mc_name m = ''incr'' then incr E m st
      else if mc_name m = ''htdist'' then Next (st\<lparr>stderr := stderr st @ htdist (ht st)\<rparr>)
      else if mc_name m = ''dirsep'' then unget_input E DIRSEP st
      else if mc_name m = ''add'' then push_num E (bi_add (ARG m)) st
      else if mc_name m = ''mult'' then push_num E (bi_mult (ARG m)) st
      else if mc_name m = ''sub'' then push_num E (bi_sub (ARG m)) st
      else if mc_name m = ''div'' then push_num E (bi_div (ARG m)) st
      else if mc_name m = ''mod'' then push_num E (bi_mod (ARG m)) st
      else Next st)"

definition PROCESS_BI_NO_ARGS :: "env \<Rightarrow> m4_state \<Rightarrow> outcome" where
  "PROCESS_BI_NO_ARGS E st =
     (if TS st = ''dnl'' then DNL E st
      else if TS st = ''divnum'' then DIVNUM E st
      else if TS st = ''undivert'' then
        (if act_div st \<noteq> 0
         then EQUIT (''undivert: Can only call from diversion 0''
                     @ '' when called without arguments'') st
         else UNDIVERT_ALL E st)
      else if TS st = ''divert'' then Next (SET_OUTPUT (st\<lparr>act_div := 0\<rparr>))
      else if TS st = ''htdist'' then Next (st\<lparr>stderr := stderr st @ htdist (ht st)\<rparr>)
      else if TS st = ''dirsep'' then unget_input E DIRSEP st
      else put_output E (TS st) st)"

subsection \<open>The loop of \<^verbatim>\<open>main\<close>\<close>

definition REMOVE_SH :: "m4_state \<Rightarrow> m4_state" where
  "REMOVE_SH st = SET_OUTPUT (st\<lparr>stack := delete_stack_head (stack st)\<rparr>)"

text \<open>\<^verbatim>\<open>ARG_END\<close>, \<^verbatim>\<open>NESTED_CB\<close>, \<^verbatim>\<open>NESTED_OB\<close> and \<^verbatim>\<open>ARG_COMMA\<close>.\<close>

definition ARG_END :: "m4_state \<Rightarrow> bool" where
  "ARG_END st =
     (case stack st of [] \<Rightarrow> False | m # ms \<Rightarrow> bracket_depth m = 1 \<and> TS st = '')'')"

definition NESTED_CB :: "m4_state \<Rightarrow> bool" where
  "NESTED_CB st =
     (case stack st of [] \<Rightarrow> False | m # ms \<Rightarrow> bracket_depth m > 1 \<and> TS st = '')'')"

definition NESTED_OB :: "m4_state \<Rightarrow> bool" where
  "NESTED_OB st = (case stack st of [] \<Rightarrow> False | m # ms \<Rightarrow> TS st = ''('')"

definition ARG_COMMA :: "m4_state \<Rightarrow> bool" where
  "ARG_COMMA st =
     (case stack st of [] \<Rightarrow> False | m # ms \<Rightarrow> bracket_depth m = 1 \<and> TS st = '','')"

text \<open>The statements \<^verbatim>\<open>++stack->bracket_depth\<close> and \<^verbatim>\<open>--stack->bracket_depth\<close>.\<close>

definition map_bracket_depth :: "(size_t \<Rightarrow> size_t) \<Rightarrow> m4_state \<Rightarrow> outcome" where
  "map_bracket_depth f st =
     (case stack st of
        [] \<Rightarrow> Undefined
      | m # ms \<Rightarrow> Next (st\<lparr>stack := m\<lparr>bracket_depth := f (bracket_depth m)\<rparr> # ms\<rparr>))"

text \<open>
  The branch of a token that matches a macro, whose entry is \<open>e\<close>. With a bracket
  next, the call is stacked: the new frame gets copies of the token and of the
  definition, and its bracket depth goes from 0 to 1.
\<close>

definition macro_call :: "env \<Rightarrow> entry \<Rightarrow> m4_state \<Rightarrow> outcome" where
  "macro_call E e st0 =
     then_do (READ_TOKEN E True st0) (\<lambda>st.
       if NTS st = ''('' then
         (case stack_on_mcall (alloc E) (stack st) of
            (r, stk) \<Rightarrow>
              if r \<noteq> 0 then Quit st
              else
                (case stk of
                   [] \<Rightarrow> Undefined
                 | t # ms \<Rightarrow>
                     if \<not> strdup_ok (alloc E) (TS st) then Quit (st\<lparr>stack := stk\<rparr>)
                     else
                       (case entry_def e of
                          None \<Rightarrow>
                            EAT_WS E (SET_OUTPUT (st\<lparr>stack :=
                              t\<lparr>mc_name := TS st, bracket_depth := bracket_depth t + 1\<rparr> # ms\<rparr>))
                        | Some d \<Rightarrow>
                            if \<not> strdup_ok (alloc E) d
                            then Quit (st\<lparr>stack := t\<lparr>mc_name := TS st\<rparr> # ms\<rparr>)
                            else
                              EAT_WS E (SET_OUTPUT (st\<lparr>stack :=
                                t\<lparr>mc_name := TS st, mc_def := Some d,
                                  bracket_depth := bracket_depth t + 1\<rparr> # ms\<rparr>)))))
       else
         then_do (unget_input E (NTS st) st) (\<lambda>st'.
           (case entry_def e of
              None \<Rightarrow> PROCESS_BI_NO_ARGS E st'
            | Some d \<Rightarrow>
                if \<not> strdup_ok (alloc E) d then Quit st'
                else unget_input E (strip_def d) st')))"

text \<open>The branch of \<^verbatim>\<open>ARG_END\<close>: the end of the argument collection of the head frame.\<close>

definition arg_end :: "env \<Rightarrow> m4_state \<Rightarrow> outcome" where
  "arg_end E st =
     (case stack st of
        [] \<Rightarrow> Undefined
      | m # ms \<Rightarrow>
          then_do
            (case mc_def m of
               None \<Rightarrow>
                 (case terminate_args (alloc E) (m\<lparr>bracket_depth := bracket_depth m - 1\<rparr>) of
                    (r, m') \<Rightarrow>
                      if r \<noteq> 0 then Quit (st\<lparr>stack := m' # ms\<rparr>)
                      else PROCESS_BI_WITH_ARGS E m' (st\<lparr>stack := m' # ms\<rparr>))
             | Some d \<Rightarrow>
                 (case sub_args (alloc E) (result st)
                         (m\<lparr>bracket_depth := bracket_depth m - 1\<rparr>) d of
                    (r, res) \<Rightarrow>
                      if r \<noteq> 0
                      then Quit (st\<lparr>result := res,
                             stack := m\<lparr>bracket_depth := bracket_depth m - 1\<rparr> # ms\<rparr>)
                      else unget_input E (cstr (buf_a res))
                             (st\<lparr>result := res,
                                stack := m\<lparr>bracket_depth := bracket_depth m - 1\<rparr> # ms\<rparr>)))
            (\<lambda>st'. Next (REMOVE_SH st')))"

text \<open>The branch of \<^verbatim>\<open>ARG_COMMA\<close>.\<close>

definition arg_comma :: "env \<Rightarrow> m4_state \<Rightarrow> outcome" where
  "arg_comma E st =
     (case stack st of
        [] \<Rightarrow> Undefined
      | m # ms \<Rightarrow>
          if act_arg m = 9 then EQUIT ''Macro call has too many arguments'' st
          else
            (case init_buf (alloc E) of
               None \<Rightarrow>
                 Quit (st\<lparr>stack := m\<lparr>act_arg := act_arg m + 1,
                         arg_buf := (arg_buf m)(act_arg m + 1 := None)\<rparr> # ms\<rparr>)
             | Some b \<Rightarrow>
                 EAT_WS E (SET_OUTPUT (st\<lparr>stack := m\<lparr>act_arg := act_arg m + 1,
                   arg_buf := (arg_buf m)(act_arg m + 1 := Some b)\<rparr> # ms\<rparr>))))"

text \<open>One iteration of the \<^verbatim>\<open>while (1)\<close> loop of \<^verbatim>\<open>main\<close>.\<close>

definition loop_body :: "env \<Rightarrow> m4_state \<Rightarrow> outcome" where
  "loop_body E st0 =
     then_do (OUT_DIV E 0 st0) (\<lambda>st1.
     then_do (READ_TOKEN E False st1) (\<lambda>st.
       if TS st = [left_quote st] then
         then_do
           (if quote_depth st \<noteq> 0 then put_output E (TS st) (st\<lparr>quote_on := True\<rparr>)
            else Next (st\<lparr>quote_on := True\<rparr>))
           (\<lambda>st'. Next (st'\<lparr>quote_depth := quote_depth st' + 1\<rparr>))
       else if TS st = [right_quote st] then
         then_do
           (if quote_depth st > 1 then put_output E (TS st) st else Next st)
           (\<lambda>st'. Next (st'\<lparr>quote_depth := quote_depth st' - 1,
                           quote_on := (if quote_depth st' - 1 = 0 then False
                                        else quote_on st')\<rparr>))
       else if quote_on st then put_output E (TS st) st
       else
         (case ISMACRO (ht st) (TS st) of
            Some e \<Rightarrow> macro_call E e st
          | None \<Rightarrow>
              if ARG_END st then arg_end E st
              else if ARG_COMMA st then arg_comma E st
              else if NESTED_CB st then
                then_do (put_output E (TS st) st) (map_bracket_depth (\<lambda>d. d - 1))
              else if NESTED_OB st then
                then_do (put_output E (TS st) st) (map_bracket_depth (\<lambda>d. d + 1))
              else put_output E (TS st) st)))"

text \<open>
  How \<^verbatim>\<open>main\<close> ends: it returns a value, with the final state (\<open>Return\<close>); it returns
  1 from a \<^verbatim>\<open>QUIT\<close> before its loop starts (\<open>Return_Setup\<close>); or its behaviour is
  undefined (\<open>Crash\<close>). \<open>end_of_input\<close> is \<^verbatim>\<open>main\<close> from the label \<^verbatim>\<open>end_of_input\<close> on.
\<close>

datatype final = Return nat m4_state | Return_Setup | Crash

definition end_of_input :: "env \<Rightarrow> m4_state \<Rightarrow> final" where
  "end_of_input E st =
     (if stack st \<noteq> [] then Return 1 (EMSG ''Input finished without unwinding the stack'' st)
      else if quote_on st then Return 1 (EMSG ''Input finished without exiting quotes'' st)
      else (case UNDIVERT_ALL E st of
              Next st' \<Rightarrow> Return 0 st'
            | End_Of_Input st' \<Rightarrow> Return 0 st'
            | Quit st' \<Rightarrow> Return 1 st'
            | Undefined \<Rightarrow> Crash))"

text \<open>
  The loop, which need not end (a macro can expand to itself): at most \<open>n\<close> iterations,
  \<open>None\<close> when they do not reach the end of \<^verbatim>\<open>main\<close>.
\<close>

fun m4_loop :: "nat \<Rightarrow> env \<Rightarrow> m4_state \<Rightarrow> final option" where
  "m4_loop 0 E st = None"
| "m4_loop (Suc n) E st =
     (case loop_body E st of
        Next st' \<Rightarrow> m4_loop n E st'
      | End_Of_Input st' \<Rightarrow> Some (end_of_input E st')
      | Quit st' \<Rightarrow> Some (Return 1 st')
      | Undefined \<Rightarrow> Some Crash)"

definition exit_status :: "final \<Rightarrow> nat option" where
  "exit_status f = (case f of Return r st \<Rightarrow> Some r | Return_Setup \<Rightarrow> Some 1 | Crash \<Rightarrow> None)"

text \<open>
  The start of \<^verbatim>\<open>main\<close>, for the file arguments \<^verbatim>\<open>argv[1]\<close>, ..., \<^verbatim>\<open>argv[argc - 1]\<close> and
  the bytes on standard input: \<open>None\<close> when it quits. The allocator answers by the
  size of the request, so the calls of \<^verbatim>\<open>init_buf\<close> for the five buffers and the eleven
  diversions all end as the first does. \<^verbatim>\<open>total_fs += fs\<close> is an unchecked \<^verbatim>\<open>size_t\<close>
  addition.
\<close>

fun total_filesize :: "env \<Rightarrow> string list \<Rightarrow> nat \<Rightarrow> nat option" where
  "total_filesize E [] total_fs = Some total_fs"
| "total_filesize E (fn # fns) total_fs =
     (case filesize E fn of
        None \<Rightarrow> None
      | Some fs \<Rightarrow> total_filesize E fns ((total_fs + fs) mod 2 ^ 64))"

fun include_all :: "env \<Rightarrow> buf \<Rightarrow> string list \<Rightarrow> nat \<times> buf" where
  "include_all E b [] = (0, b)"
| "include_all E b (fn # fns) =
     (case include_file E b fn of
        (r, b') \<Rightarrow> if r \<noteq> 0 then (1, b') else include_all E b' fns)"

definition m4_setup :: "env \<Rightarrow> string list \<Rightarrow> string \<Rightarrow> m4_state option" where
  "m4_setup E fns sin =
     (case init_buf (alloc E) of
        None \<Rightarrow> None
      | Some b \<Rightarrow>
          if \<not> alloc E (HASH_TABLE_SIZE * 8) then None
          else
            (case define_builtins (alloc E) empty_table builtin_names of
               (r, tbl) \<Rightarrow>
                 if r \<noteq> 0 then None
                 else if fns \<noteq> [] then
                   (case total_filesize E (rev fns) 0 of
                      None \<Rightarrow> None
                    | Some total_fs \<Rightarrow>
                        (case grow_buf (alloc E) b total_fs of
                           (r', inp) \<Rightarrow>
                             if r' \<noteq> 0 then None
                             else
                               (case include_all E inp (rev fns) of
                                  (r'', inp') \<Rightarrow>
                                    if r'' \<noteq> 0 then None
                                    else
                                      Some \<lparr>input = inp', token = b, next_token = b, result = b,
                                        ht = tbl, quote_on = False, quote_depth = 0, act_div = 0,
                                        diversion = (\<lambda>k. b), output = OutDiv 0,
                                        left_quote = CHR 0x60, right_quote = CHR 0x27,
                                        stack = [], read_stdin = False, stdin = sin,
                                        stdout = [], stderr = []\<rparr>)))
                 else
                   Some \<lparr>input = b, token = b, next_token = b, result = b,
                     ht = tbl, quote_on = False, quote_depth = 0, act_div = 0,
                     diversion = (\<lambda>k. b), output = OutDiv 0,
                     left_quote = CHR 0x60, right_quote = CHR 0x27,
                     stack = [], read_stdin = True, stdin = sin,
                     stdout = [], stderr = []\<rparr>))"

text \<open>\<^verbatim>\<open>main\<close> with at most \<open>n\<close> iterations of its loop.\<close>

definition main :: "nat \<Rightarrow> env \<Rightarrow> string list \<Rightarrow> string \<Rightarrow> final option" where
  "main n E fns sin =
     (case m4_setup E fns sin of
        None \<Rightarrow> Some Return_Setup
      | Some st \<Rightarrow> m4_loop n E st)"

subsection \<open>Predicates on the symbol table\<close>




subsection \<open>A plain run\<close>

text \<open>
  The environment in which nothing fails: every allocation succeeds, standard input
  ends without error, every write to standard output succeeds; no file can be read.
  \<open>builtin_table\<close> is the symbol table at the start of the loop in that environment.
\<close>

definition plain_env :: env where
  "plain_env = \<lparr>alloc = (\<lambda>n. True), stdin_error = False, stdout_ok = True,
     files = (\<lambda>fn. None)\<rparr>"

definition builtin_table :: hash_table where
  "builtin_table = snd (define_builtins (\<lambda>n. True) empty_table builtin_names)"

text \<open>The state in which the loop starts in the plain environment, without file arguments.\<close>

definition start_state :: "string \<Rightarrow> m4_state" where
  "start_state sin =
     \<lparr>input = \<lparr>buf_a = [], buf_s = 512\<rparr>, token = \<lparr>buf_a = [], buf_s = 512\<rparr>,
       next_token = \<lparr>buf_a = [], buf_s = 512\<rparr>, result = \<lparr>buf_a = [], buf_s = 512\<rparr>,
       ht = builtin_table, quote_on = False, quote_depth = 0, act_div = 0,
       diversion = (\<lambda>k. \<lparr>buf_a = [], buf_s = 512\<rparr>), output = OutDiv 0,
       left_quote = CHR 0x60, right_quote = CHR 0x27,
       stack = [], read_stdin = True, stdin = sin, stdout = [], stderr = []\<rparr>"

subsection \<open>The arithmetic built-ins as folds\<close>

text \<open>
  The arithmetic built-ins as the specification words them. A numeric argument is a
  non-empty string of decimal digits whose value fits \<^verbatim>\<open>size_t\<close>; \<open>spec_arith\<close> drops
  the empty arguments, fails (\<open>None\<close>) when one of the others is not numeric, and folds
  a checked operation over their values.
\<close>

definition decimal_value :: "string \<Rightarrow> nat" where
  "decimal_value str = foldl (\<lambda>n c. n * 10 + digit_val c) 0 str"

definition spec_num :: "string \<Rightarrow> nat option" where
  "spec_num str =
     (if str \<noteq> [] \<and> list_all isdigit str \<and> decimal_value str \<le> SIZE_MAX
      then Some (decimal_value str) else None)"

fun checked_fold :: "(nat \<Rightarrow> nat \<Rightarrow> nat option) \<Rightarrow> nat \<Rightarrow> nat list \<Rightarrow> nat option" where
  "checked_fold f w [] = Some w"
| "checked_fold f w (n # ns) =
     (case f w n of None \<Rightarrow> None | Some w' \<Rightarrow> checked_fold f w' ns)"

definition spec_arith :: "(nat \<Rightarrow> nat \<Rightarrow> nat option) \<Rightarrow> nat \<Rightarrow> string list \<Rightarrow> nat option" where
  "spec_arith f w strs =
     (case those (map spec_num (filter (\<lambda>str. str \<noteq> []) strs)) of
        None \<Rightarrow> None
      | Some ns \<Rightarrow> checked_fold f w ns)"

definition add_op :: "nat \<Rightarrow> nat \<Rightarrow> nat option" where
  "add_op w n = (if w + n \<le> SIZE_MAX then Some (w + n) else None)"

definition mult_op :: "nat \<Rightarrow> nat \<Rightarrow> nat option" where
  "mult_op w n = (if w * n \<le> SIZE_MAX then Some (w * n) else None)"

definition sub_op :: "nat \<Rightarrow> nat \<Rightarrow> nat option" where
  "sub_op w n = (if n \<le> w then Some (w - n) else None)"

definition div_op :: "nat \<Rightarrow> nat \<Rightarrow> nat option" where
  "div_op w n = (if n = 0 then None else Some (w div n))"

definition mod_op :: "nat \<Rightarrow> nat \<Rightarrow> nat option" where
  "mod_op w n = (if n = 0 then None else Some (w mod n))"

text \<open>
  \<open>add\<close> and \<open>mult\<close> fold over all the arguments, from 0 and from 1; \<open>sub\<close>, \<open>div\<close> and
  \<open>mod\<close> need a numeric first argument and fold over the others.
\<close>

definition spec_from_first :: "(nat \<Rightarrow> nat \<Rightarrow> nat option) \<Rightarrow> string list \<Rightarrow> nat option" where
  "spec_from_first f strs =
     (case strs of
        [] \<Rightarrow> None
      | str # rest \<Rightarrow>
          (case spec_num str of None \<Rightarrow> None | Some w \<Rightarrow> spec_arith f w rest))"

text \<open>The number an arithmetic built-in ends with, \<open>None\<close> when it quits.\<close>

definition result_of :: "string + nat \<Rightarrow> nat option" where
  "result_of r = (case r of Inl msg \<Rightarrow> None | Inr w \<Rightarrow> Some w)"

text \<open>The arguments of a call as \<^verbatim>\<open>ARG\<close> gives them: the empty string where there is none.\<close>

definition args_of :: "string list \<Rightarrow> nat \<Rightarrow> string" where
  "args_of strs k = (if 1 \<le> k \<and> k \<le> length strs then strs ! (k - 1) else [])"

subsection \<open>Tokens\<close>




subsection \<open>Plain text\<close>




section \<open>Properties\<close>

subsection \<open>Hash values\<close>

lemma hash_builtin:
  "hash_str ''define'' = 3200" "hash_str ''undefine'' = 4923" "hash_str ''changequote'' = 11225"
  "hash_str ''divert'' = 8989" "hash_str ''dumpdef'' = 2062" "hash_str ''errprint'' = 9329"
  "hash_str ''ifdef'' = 2925" "hash_str ''ifelse'' = 14325" "hash_str ''include'' = 12057"
  "hash_str ''len'' = 98" "hash_str ''index'' = 10363" "hash_str ''translit'' = 5998"
  "hash_str ''substr'' = 14260" "hash_str ''dnl'' = 7939" "hash_str ''divnum'' = 11560"
  "hash_str ''undivert'' = 7078" "hash_str ''incr'' = 13139" "hash_str ''htdist'' = 7475"
  "hash_str ''dirsep'' = 10492" "hash_str ''add'' = 12868" "hash_str ''mult'' = 3109"
  "hash_str ''sub'' = 3361" "hash_str ''div'' = 7934" "hash_str ''mod'' = 995"
  by (simp_all add: hash_str_def HASH_TABLE_SIZE_def)

lemma hash_ht: "hash_str ''ht'' = 12057"
  by (simp add: hash_str_def HASH_TABLE_SIZE_def)

subsection \<open>Deleting from the symbol table\<close>

text \<open>
  Claim C1 (delete removes exactly the matching entry and keeps every other entry of
  the bucket reachable) fails on the code. The names \<open>ht\<close> and \<open>include\<close> hash to the
  same bucket, 12057. After the built-ins are defined and \<open>ht\<close> is defined by the
  user, \<open>ht\<close> is the head of that bucket and \<open>include\<close> its successor.
  \<^verbatim>\<open>delete_entry\<close> of \<open>ht\<close> returns 0 and sets the bucket head to \<^verbatim>\<open>NULL\<close>, so the
  lookup of \<open>include\<close>, which succeeded before, now finds nothing.
\<close>

theorem delete_entry_head_drops_chain:
  "(case define_builtins (\<lambda>n. True) empty_table builtin_names of (r0, ht0) \<Rightarrow>
   (case upsert_entry (\<lambda>n. True) ht0 ''ht'' (Some ''x'') of (r1, ht1) \<Rightarrow>
   (case delete_entry ht1 ''ht'' of (r2, ht2) \<Rightarrow>
      r0 = 0 \<and> r1 = 0 \<and> r2 = 0
      \<and> lookup_entry ht1 ''include'' = Some \<lparr>entry_name = ''include'', entry_def = None\<rparr>
      \<and> lookup_entry ht1 ''ht'' = Some \<lparr>entry_name = ''ht'', entry_def = Some ''x''\<rparr>
      \<and> lookup_entry ht2 ''ht'' = None
      \<and> lookup_entry ht2 ''include'' = None)))"
  by (simp add: builtin_names_def upsert_entry_def delete_entry_def lookup_entry_def
      hash_builtin hash_ht empty_table_def strdup_ok_def)

subsection \<open>Pushing back onto the input\<close>










subsection \<open>Lookup in the symbol table\<close>

lemma lookup_chain_name: "lookup_chain nm es = Some e \<Longrightarrow> entry_name e = nm"
  by (induction es) (auto split: if_splits)


lemma lookup_chain_update:
  "lookup_chain nm' (update_chain nm d es) =
     (if nm' = nm then map_option (\<lambda>e. e\<lparr>entry_def := d\<rparr>) (lookup_chain nm es)
      else lookup_chain nm' es)"
  by (induction es) auto



lemma upsert_entry_fst: "fst (upsert_entry A tbl nm d) = 0 \<or> fst (upsert_entry A tbl nm d) = 1"
  by (simp add: upsert_entry_def split: option.splits)

lemma upsert_entry_fail: "fst (upsert_entry A tbl nm d) \<noteq> 0 \<Longrightarrow> snd (upsert_entry A tbl nm d) = tbl"
  by (simp add: upsert_entry_def split: option.splits if_splits)

lemma upsert_entry_ok:
  "\<forall>n. A n \<Longrightarrow> fst (upsert_entry A tbl nm d) = 0"
  by (simp add: upsert_entry_def strdup_ok_def split: option.splits)

lemma lookup_upsert:
  assumes "fst (upsert_entry A tbl nm d) = 0"
  shows "lookup_entry (snd (upsert_entry A tbl nm d)) nm' =
     (if nm' = nm then Some \<lparr>entry_name = nm, entry_def = d\<rparr> else lookup_entry tbl nm')"
proof (cases "lookup_entry tbl nm")
  case None
  with assms show ?thesis
    by (auto simp: upsert_entry_def lookup_entry_def split: if_splits)
next
  case (Some e)
  then have "entry_name e = nm"
    by (auto simp: lookup_entry_def dest: lookup_chain_name)
  then have "e\<lparr>entry_def := d\<rparr> = \<lparr>entry_name = nm, entry_def = d\<rparr>" by simp
  with Some assms show ?thesis
    by (auto simp: upsert_entry_def lookup_entry_def lookup_chain_update split: if_splits)
qed











lemma define_builtins_ok:
  "\<forall>n. A n \<Longrightarrow> fst (define_builtins A tbl nms) = 0"
  by (induction nms arbitrary: tbl) (auto simp: split_beta upsert_entry_ok)

lemma lookup_define_builtins:
  "\<forall>n. A n \<Longrightarrow> lookup_entry (snd (define_builtins A tbl nms)) nm =
     (if nm \<in> set nms then Some \<lparr>entry_name = nm, entry_def = None\<rparr> else lookup_entry tbl nm)"
proof (induction nms arbitrary: tbl)
  case Nil
  then show ?case by simp
next
  case (Cons a nms)
  have ok: "fst (upsert_entry A tbl a None) = 0" using Cons.prems by (rule upsert_entry_ok)
  show ?case
    using Cons.IH [OF Cons.prems, of "snd (upsert_entry A tbl a None)"] ok lookup_upsert [OF ok]
    by (auto simp: split_beta)
qed

lemma lookup_builtin_table:
  "lookup_entry builtin_table nm =
     (if nm \<in> set builtin_names then Some \<lparr>entry_name = nm, entry_def = None\<rparr> else None)"
  unfolding builtin_table_def
  by (subst lookup_define_builtins) (simp_all add: lookup_entry_def empty_table_def)

lemma m4_setup_plain: "m4_setup plain_env [] sin = Some (start_state sin)"
  using define_builtins_ok [of "\<lambda>n. True" empty_table builtin_names]
  by (simp add: m4_setup_def plain_env_def init_buf_def builtin_table_def split_beta
      INIT_BUF_SIZE_def start_state_def)

lemma plain_env_simps:
  "alloc plain_env n" "stdin_error plain_env = False" "stdout_ok plain_env = True"
  "files plain_env fn = None"
  by (simp_all add: plain_env_def)

lemma upsert_plain_fst: "fst (upsert_entry (alloc plain_env) tbl nm d) = 0"
  by (rule upsert_entry_ok) (simp add: plain_env_def)

lemma lookup_upsert_plain:
  "lookup_entry (snd (upsert_entry (alloc plain_env) tbl nm d)) nm' =
     (if nm' = nm then Some \<lparr>entry_name = nm, entry_def = d\<rparr> else lookup_entry tbl nm')"
  by (rule lookup_upsert [OF upsert_plain_fst])

text \<open>
  The rewrite rules that evaluate a run of \<^verbatim>\<open>main\<close> in the plain environment on given
  bytes of standard input.
\<close>

lemmas run_defs = main_def m4_setup_plain start_state_def m4_loop.simps loop_body_def then_do_def OUT_DIV_def
  READ_TOKEN_def getword_def getch_def ungetch_def grow_buf_def buf_i_def delete_buf_def
  BUF_FREE_SIZE_def TS_def NTS_def cstr_def NUL_def EOF_def put_output_def put_str_def
  ISMACRO_def isalpha_def isalnum_def isdigit_def ARG_END_def ARG_COMMA_def NESTED_CB_def
  NESTED_OB_def end_of_input_def UNDIVERT_ALL_def getword_loop.simps Let_def split_beta
  plain_env_simps lookup_builtin_table builtin_names_def macro_call_def arg_end_def arg_comma_def
  EAT_WS_def EAT_WS_loop.simps DNL.simps WS_def unget_input_def ungetstr_def
  stack_on_mcall_def init_mcall_def init_buf_def sizeof_buf_def sizeof_mcall_def INIT_BUF_SIZE_def
  strdup_ok_def SET_OUTPUT_def REMOVE_SH_def delete_stack_head_def terminate_args_def
  terminate_args_loop.simps PROCESS_BI_WITH_ARGS_def PROCESS_BI_NO_ARGS_def ARG_def
  upsert_plain_fst lookup_upsert_plain EQUIT_def EMSG_def map_bracket_depth_def
  divert_def first_byte_def digit_val_def

subsection \<open>The invariant of the symbol table\<close>




subsection \<open>\<^verbatim>\<open>undivert\<close> without arguments\<close>

lemma below_ten: "k < (10::nat) \<Longrightarrow>
    k = 0 \<or> k = 1 \<or> k = 2 \<or> k = 3 \<or> k = 4 \<or> k = 5 \<or> k = 6 \<or> k = 7 \<or> k = 8 \<or> k = 9"
  by arith

lemma UNDIVERT_ALL_ok:
  assumes "stdout_ok E"
  shows "UNDIVERT_ALL E st =
     Next (st\<lparr>stdout := stdout st @ buf_a (diversion st 0) @ buf_a (diversion st 1)
               @ buf_a (diversion st 2) @ buf_a (diversion st 3) @ buf_a (diversion st 4)
               @ buf_a (diversion st 5) @ buf_a (diversion st 6) @ buf_a (diversion st 7)
               @ buf_a (diversion st 8) @ buf_a (diversion st 9),
             diversion := (diversion st)
               (0 := delete_buf (diversion st 0), 1 := delete_buf (diversion st 1),
                2 := delete_buf (diversion st 2), 3 := delete_buf (diversion st 3),
                4 := delete_buf (diversion st 4), 5 := delete_buf (diversion st 5),
                6 := delete_buf (diversion st 6), 7 := delete_buf (diversion st 7),
                8 := delete_buf (diversion st 8), 9 := delete_buf (diversion st 9))\<rparr>)"
  using assms by (simp add: UNDIVERT_ALL_def OUT_DIV_def then_do_def)

text \<open>
  Claim C7, as amended. When the token is \<open>undivert\<close> and no bracket follows,
  \<^verbatim>\<open>PROCESS_BI_NO_ARGS\<close> runs. If the active diversion is 0 and the writes to standard
  output succeed, the contents of the diversions 0, 1, ..., 9 are appended to standard
  output in this order and each of these ten buffers is emptied; diversion 10, the
  active diversion, the stack and the input are as before. If the active diversion is
  not 0, the call is a fatal error: the message is printed and \<^verbatim>\<open>main\<close> quits, with
  nothing written to standard output.
\<close>

theorem undivert_no_args:
  assumes "TS st = ''undivert''"
  shows "(act_div st = 0 \<and> stdout_ok E \<longrightarrow>
           (\<exists>st'. PROCESS_BI_NO_ARGS E st = Next st'
              \<and> stdout st' = stdout st @ concat (map (\<lambda>k. buf_a (diversion st k))
                                                  [0, 1, 2, 3, 4, 5, 6, 7, 8, 9])
              \<and> (\<forall>k < 10. buf_i (diversion st' k) = 0)
              \<and> diversion st' 10 = diversion st 10
              \<and> act_div st' = 0 \<and> stack st' = stack st \<and> input st' = input st))
       \<and> (act_div st \<noteq> 0 \<longrightarrow>
           PROCESS_BI_NO_ARGS E st =
             Quit (EMSG (''undivert: Can only call from diversion 0''
                         @ '' when called without arguments'') st))"
proof (intro conjI impI)
  assume a: "act_div st = 0 \<and> stdout_ok E"
  then have p: "PROCESS_BI_NO_ARGS E st = UNDIVERT_ALL E st"
    using assms by (simp add: PROCESS_BI_NO_ARGS_def)
  from a have ok: "stdout_ok E" by simp
  show "\<exists>st'. PROCESS_BI_NO_ARGS E st = Next st'
              \<and> stdout st' = stdout st @ concat (map (\<lambda>k. buf_a (diversion st k))
                                                  [0, 1, 2, 3, 4, 5, 6, 7, 8, 9])
              \<and> (\<forall>k < 10. buf_i (diversion st' k) = 0)
              \<and> diversion st' 10 = diversion st 10
              \<and> act_div st' = 0 \<and> stack st' = stack st \<and> input st' = input st"
    unfolding p UNDIVERT_ALL_ok [OF ok] using a
    by (auto simp: delete_buf_def buf_i_def dest!: below_ten)
next
  assume "act_div st \<noteq> 0"
  then show "PROCESS_BI_NO_ARGS E st =
             Quit (EMSG (''undivert: Can only call from diversion 0''
                         @ '' when called without arguments'') st)"
    using assms by (simp add: PROCESS_BI_NO_ARGS_def EQUIT_def)
qed

text \<open>
  The theorem on the start state with the token \<open>undivert\<close>: once with \<open>a\<close> and \<open>b\<close>
  held in the diversions 1 and 2, from diversion 0; once from diversion 2.
\<close>

theorem undivert_no_args_witness:
  "TS ((start_state [])\<lparr>token := \<lparr>buf_a = ''undivert'' @ [NUL], buf_s = 512\<rparr>,
        diversion := (diversion (start_state []))
          (1 := \<lparr>buf_a = ''a'', buf_s = 512\<rparr>, 2 := \<lparr>buf_a = ''b'', buf_s = 512\<rparr>)\<rparr>)
     = ''undivert''
   \<and> stdout_ok plain_env
   \<and> (\<exists>st'. PROCESS_BI_NO_ARGS plain_env
          ((start_state [])\<lparr>token := \<lparr>buf_a = ''undivert'' @ [NUL], buf_s = 512\<rparr>,
            diversion := (diversion (start_state []))
              (1 := \<lparr>buf_a = ''a'', buf_s = 512\<rparr>, 2 := \<lparr>buf_a = ''b'', buf_s = 512\<rparr>)\<rparr>)
          = Next st'
        \<and> stdout st' = ''ab'' \<and> buf_i (diversion st' 1) = 0 \<and> buf_i (diversion st' 2) = 0)
   \<and> PROCESS_BI_NO_ARGS plain_env
        ((start_state [])\<lparr>token := \<lparr>buf_a = ''undivert'' @ [NUL], buf_s = 512\<rparr>, act_div := 2\<rparr>)
      = Quit (EMSG (''undivert: Can only call from diversion 0''
                    @ '' when called without arguments'')
               ((start_state [])\<lparr>token := \<lparr>buf_a = ''undivert'' @ [NUL], buf_s = 512\<rparr>,
                  act_div := 2\<rparr>))"
proof -
  let ?s1 = "(start_state [])\<lparr>token := \<lparr>buf_a = ''undivert'' @ [NUL], buf_s = 512\<rparr>,
        diversion := (diversion (start_state []))
          (1 := \<lparr>buf_a = ''a'', buf_s = 512\<rparr>, 2 := \<lparr>buf_a = ''b'', buf_s = 512\<rparr>)\<rparr>"
  let ?s2 = "(start_state [])\<lparr>token := \<lparr>buf_a = ''undivert'' @ [NUL], buf_s = 512\<rparr>, act_div := 2\<rparr>"
  have t1: "TS ?s1 = ''undivert''" by (simp add: TS_def cstr_def NUL_def)
  have t2: "TS ?s2 = ''undivert''" by (simp add: TS_def cstr_def NUL_def)
  have a1: "act_div ?s1 = 0 \<and> stdout_ok plain_env" by (simp add: start_state_def plain_env_def)
  have a2: "act_div ?s2 \<noteq> 0" by simp
  from undivert_no_args [OF t1, of plain_env] a1
  obtain st' where s: "PROCESS_BI_NO_ARGS plain_env ?s1 = Next st'"
    "stdout st' = stdout ?s1 @ concat (map (\<lambda>k. buf_a (diversion ?s1 k))
                                                  [0, 1, 2, 3, 4, 5, 6, 7, 8, 9])"
    "\<forall>k < 10. buf_i (diversion st' k) = 0" by blast
  from s(2) have "stdout st' = ''ab''" by (simp add: start_state_def)
  moreover from s(3) have "buf_i (diversion st' 1) = 0 \<and> buf_i (diversion st' 2) = 0" by simp
  ultimately have e: "\<exists>st'. PROCESS_BI_NO_ARGS plain_env ?s1 = Next st'
        \<and> stdout st' = ''ab'' \<and> buf_i (diversion st' 1) = 0 \<and> buf_i (diversion st' 2) = 0"
    using s(1) by blast
  from undivert_no_args [OF t2, of plain_env] a2
  have q: "PROCESS_BI_NO_ARGS plain_env ?s2 = Quit (EMSG (''undivert: Can only call from diversion 0''
                    @ '' when called without arguments'') ?s2)" by blast
  from t1 a1 e q show ?thesis by blast
qed

text \<open>
  Claim C7 as stated (for every engine state) fails: on the input
  \<^verbatim>\<open>divert(2)x undivert \<close> the call of \<open>undivert\<close> is made from diversion 2. \<^verbatim>\<open>main\<close> returns
  1, nothing has been written to standard output, and diversion 2 still holds its
  bytes.
\<close>

theorem undivert_no_args_quits:
  "(case main (Suc (Suc (Suc (Suc (Suc (Suc (Suc (Suc (Suc (Suc (Suc (Suc 0))))))))))))
      plain_env [] ''divert(2)x undivert '' of
      Some (Return r st) \<Rightarrow> r = 1 \<and> stdout st = [] \<and> buf_a (diversion st 2) = ''x ''
    | _ \<Rightarrow> False)"
  by (simp add: run_defs)

subsection \<open>The arithmetic built-ins\<close>

lemma MOF_iff: "MOF w n \<longleftrightarrow> w * n > SIZE_MAX"
proof (cases "w = 0")
  case True
  then show ?thesis by (simp add: MOF_def)
next
  case False
  then have "SIZE_MAX div w < n \<longleftrightarrow> SIZE_MAX < n * w"
    by (simp add: div_less_iff_less_mult)
  with False show ?thesis by (simp add: MOF_def mult.commute)
qed

lemma AOF_iff: "n \<le> SIZE_MAX \<Longrightarrow> AOF w n \<longleftrightarrow> w + n > SIZE_MAX"
  by (auto simp: AOF_def)

lemma foldl_dec_ge: "n \<le> foldl (\<lambda>n c. n * 10 + digit_val c) n str"
proof (induction str arbitrary: n)
  case Nil
  then show ?case by simp
next
  case (Cons c str)
  have "n \<le> n * 10 + digit_val c" by simp
  also have "\<dots> \<le> foldl (\<lambda>n c. n * 10 + digit_val c) (n * 10 + digit_val c) str"
    by (rule Cons.IH)
  finally show ?case by simp
qed

lemma digit_val_le: "isdigit c \<Longrightarrow> digit_val c \<le> 9"
  by (auto simp: isdigit_def digit_val_def)

lemma str_to_num_loop_eq:
  "n \<le> SIZE_MAX \<Longrightarrow> str_to_num_loop n str =
     (if list_all isdigit str \<and> foldl (\<lambda>n c. n * 10 + digit_val c) n str \<le> SIZE_MAX
      then Some (foldl (\<lambda>n c. n * 10 + digit_val c) n str) else None)"
proof (induction str arbitrary: n)
  case Nil
  then show ?case by simp
next
  case (Cons c str)
  show ?case
  proof (cases "isdigit c")
    case False
    then show ?thesis by simp
  next
    case True
    then have d: "digit_val c \<le> SIZE_MAX"
      using digit_val_le [of c] by (simp add: SIZE_MAX_def)
    have ge: "n * 10 + digit_val c \<le> foldl (\<lambda>n c. n * 10 + digit_val c) (n * 10 + digit_val c) str"
      by (rule foldl_dec_ge)
    show ?thesis
    proof (cases "n * 10 + digit_val c > SIZE_MAX")
      case True
      with ge have big: "\<not> foldl (\<lambda>n c. n * 10 + digit_val c) (n * 10 + digit_val c) str \<le> SIZE_MAX"
        by simp
      from True have "MOF n 10 \<or> AOF (n * 10) (digit_val c)"
        by (auto simp: MOF_iff AOF_iff [OF d])
      with \<open>isdigit c\<close> big show ?thesis by auto
    next
      case False
      then have "\<not> MOF n 10" "\<not> AOF (n * 10) (digit_val c)"
        by (auto simp: MOF_iff AOF_iff [OF d])
      with \<open>isdigit c\<close> False Cons.IH [of "n * 10 + digit_val c"] show ?thesis by simp
    qed
  qed
qed

lemma str_to_num_spec: "str_to_num str = spec_num str"
  by (auto simp: str_to_num_def spec_num_def decimal_value_def str_to_num_loop_eq SIZE_MAX_def)

lemma spec_num_le: "spec_num str = Some n \<Longrightarrow> n \<le> SIZE_MAX"
  by (auto simp: spec_num_def split: if_splits)

lemma spec_num_empty: "spec_num [] = None"
  by (simp add: spec_num_def)

lemma digit_char_val: "d < 10 \<Longrightarrow> digit_val (digit_char d) = d"
  by (simp add: digit_val_def digit_char_def)

lemma digit_char_isdigit: "d < 10 \<Longrightarrow> isdigit (digit_char d)"
  by (simp add: isdigit_def digit_char_def)

lemma dec_digits: "list_all isdigit (dec n) \<and> dec n \<noteq> [] \<and> decimal_value (dec n) = n"
proof (induction n rule: dec.induct)
  case (1 n)
  show ?case
  proof (cases "n < 10")
    case True
    then show ?thesis
      by (simp add: dec.simps [of n] decimal_value_def digit_char_val digit_char_isdigit)
  next
    case False
    with "1.IH" have ih: "list_all isdigit (dec (n div 10))"
      "decimal_value (dec (n div 10)) = n div 10" by simp_all
    have m: "n mod 10 < 10" by simp
    from False ih m show ?thesis
      by (simp add: dec.simps [of n] decimal_value_def digit_char_val digit_char_isdigit)
  qed
qed

lemma spec_num_dec: "n \<le> SIZE_MAX \<Longrightarrow> spec_num (dec n) = Some n"
  using dec_digits [of n] by (simp add: spec_num_def)

text \<open>The loops against the folds.\<close>

lemma spec_arith_Cons:
  "spec_arith f w (str # strs) =
     (if str = [] then spec_arith f w strs
      else (case spec_num str of None \<Rightarrow> None
            | Some n \<Rightarrow> (case those (map spec_num (filter (\<lambda>str. str \<noteq> []) strs)) of
                   None \<Rightarrow> None
                 | Some ns \<Rightarrow> (case f w n of None \<Rightarrow> None | Some w' \<Rightarrow> checked_fold f w' ns))))"
  by (simp add: spec_arith_def split: option.splits)

lemma spec_arith_step:
  "str \<noteq> [] \<Longrightarrow> spec_num str = Some n \<Longrightarrow> f w n = Some w' \<Longrightarrow>
     spec_arith f w (str # strs) = spec_arith f w' strs"
  by (simp add: spec_arith_def split: option.splits)

lemma spec_arith_fail1:
  "str \<noteq> [] \<Longrightarrow> spec_num str = None \<Longrightarrow> spec_arith f w (str # strs) = None"
  by (simp add: spec_arith_def)

lemma spec_arith_fail2:
  "str \<noteq> [] \<Longrightarrow> spec_num str = Some n \<Longrightarrow> f w n = None \<Longrightarrow>
     spec_arith f w (str # strs) = None"
  by (simp add: spec_arith_def split: option.splits)

lemma spec_arith_skip: "spec_arith f w ([] # strs) = spec_arith f w strs"
  by (simp add: spec_arith_def)

lemma add_loop_spec:
  "w \<le> SIZE_MAX \<Longrightarrow> result_of (add_loop arg w ks) = spec_arith add_op w (map arg ks)"
proof (induction ks arbitrary: w)
  case Nil
  then show ?case by (simp add: result_of_def spec_arith_def)
next
  case (Cons k ks)
  show ?case
  proof (cases "arg k = []")
    case True
    with Cons show ?thesis by (simp add: spec_arith_skip)
  next
    case False
    show ?thesis
    proof (cases "spec_num (arg k)")
      case None
      with False show ?thesis
        by (simp add: str_to_num_spec spec_arith_fail1 result_of_def)
    next
      case (Some n)
      then have n: "n \<le> SIZE_MAX" by (rule spec_num_le)
      show ?thesis
      proof (cases "w + n \<le> SIZE_MAX")
        case True
        then have "add_op w n = Some (w + n)" by (simp add: add_op_def)
        from spec_arith_step [where f = add_op, OF False Some this] True Cons.IH [OF True] Some False n
        show ?thesis by (simp add: str_to_num_spec AOF_iff)
      next
        case False
        then have "add_op w n = None" by (simp add: add_op_def)
        from spec_arith_fail2 [where f = add_op, OF \<open>arg k \<noteq> []\<close> Some this] False Some \<open>arg k \<noteq> []\<close> n
        show ?thesis by (simp add: str_to_num_spec AOF_iff result_of_def)
      qed
    qed
  qed
qed

lemma mult_loop_spec:
  "w \<le> SIZE_MAX \<Longrightarrow> result_of (mult_loop arg w ks) = spec_arith mult_op w (map arg ks)"
proof (induction ks arbitrary: w)
  case Nil
  then show ?case by (simp add: result_of_def spec_arith_def)
next
  case (Cons k ks)
  show ?case
  proof (cases "arg k = []")
    case True
    with Cons show ?thesis by (simp add: spec_arith_skip)
  next
    case False
    show ?thesis
    proof (cases "spec_num (arg k)")
      case None
      with False show ?thesis
        by (simp add: str_to_num_spec spec_arith_fail1 result_of_def)
    next
      case (Some n)
      show ?thesis
      proof (cases "w * n \<le> SIZE_MAX")
        case True
        then have "mult_op w n = Some (w * n)" by (simp add: mult_op_def)
        from spec_arith_step [where f = mult_op, OF False Some this] True Cons.IH [OF True] Some False
        show ?thesis by (simp add: str_to_num_spec MOF_iff)
      next
        case False
        then have "mult_op w n = None" by (simp add: mult_op_def)
        from spec_arith_fail2 [where f = mult_op, OF \<open>arg k \<noteq> []\<close> Some this] False Some \<open>arg k \<noteq> []\<close>
        show ?thesis by (simp add: str_to_num_spec MOF_iff result_of_def)
      qed
    qed
  qed
qed

lemma sub_loop_spec:
  "result_of (sub_loop arg w ks) = spec_arith sub_op w (map arg ks)"
proof (induction ks arbitrary: w)
  case Nil
  then show ?case by (simp add: result_of_def spec_arith_def)
next
  case (Cons k ks)
  show ?case
  proof (cases "arg k = []")
    case True
    with Cons show ?thesis by (simp add: spec_arith_skip)
  next
    case False
    show ?thesis
    proof (cases "spec_num (arg k)")
      case None
      with False show ?thesis
        by (simp add: str_to_num_spec spec_arith_fail1 result_of_def)
    next
      case (Some n)
      show ?thesis
      proof (cases "n \<le> w")
        case True
        then have "sub_op w n = Some (w - n)" by (simp add: sub_op_def)
        from spec_arith_step [where f = sub_op, OF False Some this] True Cons.IH [of "w - n"] Some False
        show ?thesis by (simp add: str_to_num_spec)
      next
        case False
        then have "sub_op w n = None" by (simp add: sub_op_def)
        from spec_arith_fail2 [where f = sub_op, OF \<open>arg k \<noteq> []\<close> Some this] False Some \<open>arg k \<noteq> []\<close>
        show ?thesis by (simp add: str_to_num_spec result_of_def)
      qed
    qed
  qed
qed

lemma div_loop_spec:
  "result_of (div_loop arg w ks) = spec_arith div_op w (map arg ks)"
proof (induction ks arbitrary: w)
  case Nil
  then show ?case by (simp add: result_of_def spec_arith_def)
next
  case (Cons k ks)
  show ?case
  proof (cases "arg k = []")
    case True
    with Cons show ?thesis by (simp add: spec_arith_skip)
  next
    case False
    show ?thesis
    proof (cases "spec_num (arg k)")
      case None
      with False show ?thesis
        by (simp add: str_to_num_spec spec_arith_fail1 result_of_def)
    next
      case (Some n)
      show ?thesis
      proof (cases "n = 0")
        case False
        then have "div_op w n = Some (w div n)" by (simp add: div_op_def)
        from spec_arith_step [where f = div_op, OF \<open>arg k \<noteq> []\<close> Some this] False Cons.IH [of "w div n"] Some
          \<open>arg k \<noteq> []\<close>
        show ?thesis by (simp add: str_to_num_spec)
      next
        case True
        then have "div_op w n = None" by (simp add: div_op_def)
        from spec_arith_fail2 [where f = div_op, OF \<open>arg k \<noteq> []\<close> Some this] True Some \<open>arg k \<noteq> []\<close>
        show ?thesis by (simp add: str_to_num_spec result_of_def)
      qed
    qed
  qed
qed

lemma mod_loop_spec:
  "result_of (mod_loop arg w ks) = spec_arith mod_op w (map arg ks)"
proof (induction ks arbitrary: w)
  case Nil
  then show ?case by (simp add: result_of_def spec_arith_def)
next
  case (Cons k ks)
  show ?case
  proof (cases "arg k = []")
    case True
    with Cons show ?thesis by (simp add: spec_arith_skip)
  next
    case False
    show ?thesis
    proof (cases "spec_num (arg k)")
      case None
      with False show ?thesis
        by (simp add: str_to_num_spec spec_arith_fail1 result_of_def)
    next
      case (Some n)
      show ?thesis
      proof (cases "n = 0")
        case False
        then have "mod_op w n = Some (w mod n)" by (simp add: mod_op_def)
        from spec_arith_step [where f = mod_op, OF \<open>arg k \<noteq> []\<close> Some this] False Cons.IH [of "w mod n"] Some
          \<open>arg k \<noteq> []\<close>
        show ?thesis by (simp add: str_to_num_spec)
      next
        case True
        then have "mod_op w n = None" by (simp add: mod_op_def)
        from spec_arith_fail2 [where f = mod_op, OF \<open>arg k \<noteq> []\<close> Some this] True Some \<open>arg k \<noteq> []\<close>
        show ?thesis by (simp add: str_to_num_spec result_of_def)
      qed
    qed
  qed
qed

lemma bi_add_spec:
  "result_of (bi_add arg) = spec_arith add_op 0 (map arg [1, 2, 3, 4, 5, 6, 7, 8, 9])"
  unfolding bi_add_def by (rule add_loop_spec) simp

lemma bi_mult_spec:
  "result_of (bi_mult arg) = spec_arith mult_op 1 (map arg [1, 2, 3, 4, 5, 6, 7, 8, 9])"
  unfolding bi_mult_def by (rule mult_loop_spec) (simp add: SIZE_MAX_def)

lemma bi_sub_spec:
  "result_of (bi_sub arg) = spec_from_first sub_op (map arg [1, 2, 3, 4, 5, 6, 7, 8, 9])"
  using sub_loop_spec [of arg _ "[2, 3, 4, 5, 6, 7, 8, 9]"]
  by (auto simp: bi_sub_def spec_from_first_def str_to_num_spec result_of_def spec_num_empty
      split: option.splits)

lemma bi_div_spec:
  "result_of (bi_div arg) = spec_from_first div_op (map arg [1, 2, 3, 4, 5, 6, 7, 8, 9])"
  using div_loop_spec [of arg _ "[2, 3, 4, 5, 6, 7, 8, 9]"]
  by (auto simp: bi_div_def spec_from_first_def str_to_num_spec result_of_def spec_num_empty
      split: option.splits)

lemma bi_mod_spec:
  "result_of (bi_mod arg) = spec_from_first mod_op (map arg [1, 2, 3, 4, 5, 6, 7, 8, 9])"
  using mod_loop_spec [of arg _ "[2, 3, 4, 5, 6, 7, 8, 9]"]
  by (auto simp: bi_mod_def spec_from_first_def str_to_num_spec result_of_def spec_num_empty
      split: option.splits)

lemma checked_fold_le:
  assumes "\<And>w n w'. w \<le> SIZE_MAX \<Longrightarrow> f w n = Some w' \<Longrightarrow> w' \<le> SIZE_MAX"
  shows "w \<le> SIZE_MAX \<Longrightarrow> checked_fold f w ns = Some w' \<Longrightarrow> w' \<le> SIZE_MAX"
proof (induction ns arbitrary: w)
  case Nil
  then show ?case by simp
next
  case (Cons n ns)
  then obtain w1 where f: "f w n = Some w1" and r: "checked_fold f w1 ns = Some w'"
    by (auto split: option.splits)
  from assms [OF Cons.prems(1) f] have "w1 \<le> SIZE_MAX" .
  from Cons.IH [OF this r] show ?case .
qed

lemma spec_arith_le:
  assumes "\<And>w n w'. w \<le> SIZE_MAX \<Longrightarrow> f w n = Some w' \<Longrightarrow> w' \<le> SIZE_MAX"
    and "w \<le> SIZE_MAX" and "spec_arith f w strs = Some w'"
  shows "w' \<le> SIZE_MAX"
proof -
  from assms(3) obtain ns where "checked_fold f w ns = Some w'"
    by (auto simp: spec_arith_def split: option.splits)
  with assms(1,2) show ?thesis by (rule checked_fold_le)
qed

lemma spec_from_first_le:
  assumes "\<And>w n w'. w \<le> SIZE_MAX \<Longrightarrow> f w n = Some w' \<Longrightarrow> w' \<le> SIZE_MAX"
    and "spec_from_first f strs = Some w'"
  shows "w' \<le> SIZE_MAX"
proof -
  from assms(2) obtain str rest w where "spec_num str = Some w" "spec_arith f w rest = Some w'"
    by (auto simp: spec_from_first_def split: list.splits option.splits)
  with assms(1) spec_num_le [of str w] show ?thesis by (blast intro: spec_arith_le)
qed

lemma add_op_le: "w \<le> SIZE_MAX \<Longrightarrow> add_op w n = Some w' \<Longrightarrow> w' \<le> SIZE_MAX"
  by (auto simp: add_op_def split: if_splits)

lemma mult_op_le: "w \<le> SIZE_MAX \<Longrightarrow> mult_op w n = Some w' \<Longrightarrow> w' \<le> SIZE_MAX"
  by (auto simp: mult_op_def split: if_splits)

lemma sub_op_le: "w \<le> SIZE_MAX \<Longrightarrow> sub_op w n = Some w' \<Longrightarrow> w' \<le> SIZE_MAX"
  by (auto simp: sub_op_def split: if_splits)

lemma div_op_le: "w \<le> SIZE_MAX \<Longrightarrow> div_op w n = Some w' \<Longrightarrow> w' \<le> SIZE_MAX"
proof -
  assume a: "w \<le> SIZE_MAX" "div_op w n = Some w'"
  then have e: "w' = w div n" by (auto simp: div_op_def split: if_splits)
  have "w div n \<le> w" by (rule div_le_dividend)
  also note a(1)
  finally show ?thesis using e by simp
qed

lemma mod_op_le: "w \<le> SIZE_MAX \<Longrightarrow> mod_op w n = Some w' \<Longrightarrow> w' \<le> SIZE_MAX"
proof -
  assume a: "w \<le> SIZE_MAX" "mod_op w n = Some w'"
  then have e: "w' = w mod n" by (auto simp: mod_op_def split: if_splits)
  have "w mod n \<le> w" by (rule mod_less_eq_dividend)
  also note a(1)
  finally show ?thesis using e by simp
qed

lemma arith_result_le:
  assumes "result_of (bi_add arg) = Some w \<or> result_of (bi_mult arg) = Some w
   \<or> result_of (bi_sub arg) = Some w \<or> result_of (bi_div arg) = Some w
   \<or> result_of (bi_mod arg) = Some w"
  shows "w \<le> SIZE_MAX"
proof -
  have z: "(0::nat) \<le> SIZE_MAX" "(1::nat) \<le> SIZE_MAX" by (simp_all add: SIZE_MAX_def)
  from assms consider
      "spec_arith add_op 0 (map arg [1, 2, 3, 4, 5, 6, 7, 8, 9]) = Some w"
    | "spec_arith mult_op 1 (map arg [1, 2, 3, 4, 5, 6, 7, 8, 9]) = Some w"
    | "spec_from_first sub_op (map arg [1, 2, 3, 4, 5, 6, 7, 8, 9]) = Some w"
    | "spec_from_first div_op (map arg [1, 2, 3, 4, 5, 6, 7, 8, 9]) = Some w"
    | "spec_from_first mod_op (map arg [1, 2, 3, 4, 5, 6, 7, 8, 9]) = Some w"
    unfolding bi_add_spec bi_mult_spec bi_sub_spec bi_div_spec bi_mod_spec by blast
  then show ?thesis
  proof cases
    case 1
    with add_op_le z(1) show ?thesis by (rule spec_arith_le)
  next
    case 2
    with mult_op_le z(2) show ?thesis by (rule spec_arith_le)
  next
    case 3
    with sub_op_le show ?thesis by (rule spec_from_first_le)
  next
    case 4
    with div_op_le show ?thesis by (rule spec_from_first_le)
  next
    case 5
    with mod_op_le show ?thesis by (rule spec_from_first_le)
  qed
qed

lemma digit_char_simps:
  "digit_char 0 = CHR ''0''" "digit_char 1 = CHR ''1''" "digit_char 2 = CHR ''2''"
  "digit_char 3 = CHR ''3''" "digit_char 4 = CHR ''4''" "digit_char 5 = CHR ''5''"
  "digit_char 6 = CHR ''6''" "digit_char 7 = CHR ''7''" "digit_char 8 = CHR ''8''"
  "digit_char 9 = CHR ''9''" "digit_char (Suc 0) = CHR ''1''"
  by (simp_all add: digit_char_def char_of_eq_iff)

lemma digit_val_simps:
  "digit_val CHR ''0'' = 0" "digit_val CHR ''1'' = 1" "digit_val CHR ''2'' = 2"
  "digit_val CHR ''3'' = 3" "digit_val CHR ''4'' = 4" "digit_val CHR ''5'' = 5"
  "digit_val CHR ''6'' = 6" "digit_val CHR ''7'' = 7" "digit_val CHR ''8'' = 8"
  "digit_val CHR ''9'' = 9"
  by (simp_all add: digit_val_def)

lemma dec_numeral:
  "dec (numeral k) = (if numeral k < (10::nat) then [digit_char (numeral k)]
     else dec (numeral k div 10) @ [digit_char (numeral k mod 10)])"
  "dec 0 = [digit_char 0]" "dec 1 = [digit_char 1]" "dec (Suc 0) = [digit_char 1]"
  by (subst dec.simps, simp)+

lemmas num_eval = str_to_num_def MOF_iff AOF_def SIZE_MAX_def digit_val_simps
  dec_numeral digit_char_simps

lemmas arith_eval = bi_add_def bi_mult_def bi_sub_def bi_div_def bi_mod_def args_of_def
  isdigit_def num_eval

lemma arith_examples:
  "bi_add (args_of [''8'', ''2'', ''4'']) = Inr 14" "dec 14 = ''14''"
  "bi_mult (args_of [[], ''5'', [], ''3'']) = Inr 15" "dec 15 = ''15''"
  "bi_sub (args_of [''80'', ''20'', ''5'']) = Inr 55" "dec 55 = ''55''"
  "bi_div (args_of [''5'', ''2'']) = Inr 2" "dec 2 = ''2''"
  "bi_mod (args_of [''5'', ''2'']) = Inr 1" "dec 1 = ''1''"
  by (simp_all add: arith_eval del: add_2_eq_Suc add_2_eq_Suc')

lemmas run_arith = run_defs bi_add_def bi_mult_def bi_sub_def bi_div_def bi_mod_def
  num_eval push_num_def


lemma arith_runs:
  "(case main (Suc (Suc (Suc (Suc (Suc (Suc (Suc (Suc (Suc (Suc (Suc (Suc 0)))))))))))) plain_env [] ''add(8, 2, 4)'' of
      Some (Return r st) \<Rightarrow> r = 0 \<and> stdout st = ''14'' | _ \<Rightarrow> False)"
  "(case main (Suc (Suc (Suc (Suc (Suc (Suc (Suc (Suc (Suc (Suc (Suc (Suc 0)))))))))))) plain_env [] ''mult( , 5, , 3)'' of
      Some (Return r st) \<Rightarrow> r = 0 \<and> stdout st = ''15'' | _ \<Rightarrow> False)"
  "(case main (Suc (Suc (Suc (Suc (Suc (Suc (Suc (Suc (Suc (Suc (Suc (Suc 0)))))))))))) plain_env [] ''sub(80, 20, 5)'' of
      Some (Return r st) \<Rightarrow> r = 0 \<and> stdout st = ''55'' | _ \<Rightarrow> False)"
  "(case main (Suc (Suc (Suc (Suc (Suc (Suc (Suc (Suc (Suc (Suc (Suc (Suc 0)))))))))))) plain_env [] ''div(5, 2)'' of
      Some (Return r st) \<Rightarrow> r = 0 \<and> stdout st = ''2'' | _ \<Rightarrow> False)"
  "(case main (Suc (Suc (Suc (Suc (Suc (Suc (Suc (Suc (Suc (Suc (Suc (Suc 0)))))))))))) plain_env [] ''mod(5, 2)'' of
      Some (Return r st) \<Rightarrow> r = 0 \<and> stdout st = ''1'' | _ \<Rightarrow> False)"
  by (simp_all add: run_arith del: add_2_eq_Suc add_2_eq_Suc')

lemma arith_dispatch:
  "mc_name m = ''add'' \<longrightarrow> PROCESS_BI_WITH_ARGS E m st = push_num E (bi_add (ARG m)) st"
  "mc_name m = ''mult'' \<longrightarrow> PROCESS_BI_WITH_ARGS E m st = push_num E (bi_mult (ARG m)) st"
  "mc_name m = ''sub'' \<longrightarrow> PROCESS_BI_WITH_ARGS E m st = push_num E (bi_sub (ARG m)) st"
  "mc_name m = ''div'' \<longrightarrow> PROCESS_BI_WITH_ARGS E m st = push_num E (bi_div (ARG m)) st"
  "mc_name m = ''mod'' \<longrightarrow> PROCESS_BI_WITH_ARGS E m st = push_num E (bi_mod (ARG m)) st"
  by (simp_all add: PROCESS_BI_WITH_ARGS_def)

text \<open>
  Claim C9. Each arithmetic built-in ends with the number that the fold of the
  specification gives for its arguments 1 to 9, and quits exactly when that fold
  fails: \<open>add\<close> sums from 0 and \<open>mult\<close> multiplies from 1 over the non-empty arguments;
  \<open>sub\<close>, \<open>div\<close> and \<open>mod\<close> need a numeric first argument and fold over the non-empty
  arguments 2 to 9; a result above \<^verbatim>\<open>SIZE_MAX\<close>, a subtraction below 0, a zero divisor
  and a non-empty argument that is no decimal number in the range of \<^verbatim>\<open>size_t\<close> all
  fail. The number is within \<^verbatim>\<open>size_t\<close> and is pushed onto the input as its decimal
  digits, which read back as the same number; a failure prints its message and quits.
  The five examples hold for the built-ins and for whole runs of \<^verbatim>\<open>main\<close>.
\<close>

theorem arith_builtins:
  "result_of (bi_add arg) = spec_arith add_op 0 (map arg [1, 2, 3, 4, 5, 6, 7, 8, 9])
   \<and> result_of (bi_mult arg) = spec_arith mult_op 1 (map arg [1, 2, 3, 4, 5, 6, 7, 8, 9])
   \<and> result_of (bi_sub arg) = spec_from_first sub_op (map arg [1, 2, 3, 4, 5, 6, 7, 8, 9])
   \<and> result_of (bi_div arg) = spec_from_first div_op (map arg [1, 2, 3, 4, 5, 6, 7, 8, 9])
   \<and> result_of (bi_mod arg) = spec_from_first mod_op (map arg [1, 2, 3, 4, 5, 6, 7, 8, 9])
   \<and> str_to_num str = spec_num str
   \<and> (result_of (bi_add arg) = Some w \<or> result_of (bi_mult arg) = Some w
        \<or> result_of (bi_sub arg) = Some w \<or> result_of (bi_div arg) = Some w
        \<or> result_of (bi_mod arg) = Some w
       \<longrightarrow> w \<le> SIZE_MAX \<and> spec_num (dec w) = Some w)
   \<and> push_num E (Inr w) st = unget_input E (dec w) st
   \<and> push_num E (Inl msg) st = EQUIT msg st
   \<and> (mc_name m = ''add'' \<longrightarrow> PROCESS_BI_WITH_ARGS E m st = push_num E (bi_add (ARG m)) st)
   \<and> (mc_name m = ''mult'' \<longrightarrow> PROCESS_BI_WITH_ARGS E m st = push_num E (bi_mult (ARG m)) st)
   \<and> (mc_name m = ''sub'' \<longrightarrow> PROCESS_BI_WITH_ARGS E m st = push_num E (bi_sub (ARG m)) st)
   \<and> (mc_name m = ''div'' \<longrightarrow> PROCESS_BI_WITH_ARGS E m st = push_num E (bi_div (ARG m)) st)
   \<and> (mc_name m = ''mod'' \<longrightarrow> PROCESS_BI_WITH_ARGS E m st = push_num E (bi_mod (ARG m)) st)
   \<and> bi_add (args_of [''8'', ''2'', ''4'']) = Inr 14 \<and> dec 14 = ''14''
   \<and> bi_mult (args_of [[], ''5'', [], ''3'']) = Inr 15 \<and> dec 15 = ''15''
   \<and> bi_sub (args_of [''80'', ''20'', ''5'']) = Inr 55 \<and> dec 55 = ''55''
   \<and> bi_div (args_of [''5'', ''2'']) = Inr 2 \<and> dec 2 = ''2''
   \<and> bi_mod (args_of [''5'', ''2'']) = Inr 1 \<and> dec 1 = ''1''
   \<and> (case main (Suc (Suc (Suc (Suc (Suc (Suc (Suc (Suc (Suc (Suc (Suc (Suc 0)))))))))))) plain_env [] ''add(8, 2, 4)'' of
        Some (Return r st) \<Rightarrow> r = 0 \<and> stdout st = ''14'' | _ \<Rightarrow> False)
   \<and> (case main (Suc (Suc (Suc (Suc (Suc (Suc (Suc (Suc (Suc (Suc (Suc (Suc 0)))))))))))) plain_env [] ''mult( , 5, , 3)'' of
        Some (Return r st) \<Rightarrow> r = 0 \<and> stdout st = ''15'' | _ \<Rightarrow> False)
   \<and> (case main (Suc (Suc (Suc (Suc (Suc (Suc (Suc (Suc (Suc (Suc (Suc (Suc 0)))))))))))) plain_env [] ''sub(80, 20, 5)'' of
        Some (Return r st) \<Rightarrow> r = 0 \<and> stdout st = ''55'' | _ \<Rightarrow> False)
   \<and> (case main (Suc (Suc (Suc (Suc (Suc (Suc (Suc (Suc (Suc (Suc (Suc (Suc 0)))))))))))) plain_env [] ''div(5, 2)'' of
        Some (Return r st) \<Rightarrow> r = 0 \<and> stdout st = ''2'' | _ \<Rightarrow> False)
   \<and> (case main (Suc (Suc (Suc (Suc (Suc (Suc (Suc (Suc (Suc (Suc (Suc (Suc 0)))))))))))) plain_env [] ''mod(5, 2)'' of
        Some (Return r st) \<Rightarrow> r = 0 \<and> stdout st = ''1'' | _ \<Rightarrow> False)"
proof -
  have bound: "result_of (bi_add arg) = Some w \<or> result_of (bi_mult arg) = Some w
        \<or> result_of (bi_sub arg) = Some w \<or> result_of (bi_div arg) = Some w
        \<or> result_of (bi_mod arg) = Some w
       \<longrightarrow> w \<le> SIZE_MAX \<and> spec_num (dec w) = Some w"
    using arith_result_le [of arg w] spec_num_dec [of w] by blast
  have push: "push_num E (Inr w) st = unget_input E (dec w) st"
    "push_num E (Inl msg) st = EQUIT msg st"
    by (simp_all add: push_num_def)
  show ?thesis
    by (intro conjI bi_add_spec bi_mult_spec bi_sub_spec bi_div_spec bi_mod_spec
        str_to_num_spec bound push arith_dispatch arith_examples arith_runs)
qed

text \<open>The theorem at \<^verbatim>\<open>sub(80, 20, 5)\<close>, which ends with 55.\<close>

theorem arith_builtins_witness:
  "spec_from_first sub_op (map (args_of [''80'', ''20'', ''5'']) [1, 2, 3, 4, 5, 6, 7, 8, 9]) = Some 55
   \<and> (55::nat) \<le> SIZE_MAX \<and> spec_num (dec 55) = Some 55
   \<and> PROCESS_BI_WITH_ARGS plain_env
        \<lparr>mc_name = ''sub'', mc_def = None, bracket_depth = 0, act_arg = 1,
          arg_buf = (\<lambda>k. None)\<rparr> (start_state [])
      = push_num plain_env
          (bi_sub (ARG \<lparr>mc_name = ''sub'', mc_def = None, bracket_depth = 0, act_arg = 1,
             arg_buf = (\<lambda>k. None)\<rparr>)) (start_state [])"
proof -
  let ?m = "\<lparr>mc_name = ''sub'', mc_def = None, bracket_depth = 0, act_arg = 1,
          arg_buf = (\<lambda>k. None)\<rparr>"
  have r: "result_of (bi_sub (args_of [''80'', ''20'', ''5''])) = Some 55"
    by (simp add: arith_examples result_of_def)
  have n: "mc_name ?m = ''sub''" by simp
  note inst = arith_builtins [where arg = "args_of [''80'', ''20'', ''5'']" and w = 55 and m = ?m
      and E = plain_env and st = "start_state []"]
  have a: "spec_from_first sub_op (map (args_of [''80'', ''20'', ''5'']) [1, 2, 3, 4, 5, 6, 7, 8, 9])
      = Some 55"
    using inst [THEN conjunct2, THEN conjunct2, THEN conjunct1] r by (simp only:)
  have b: "(55::nat) \<le> SIZE_MAX \<and> spec_num (dec 55) = Some 55"
    using inst [THEN conjunct2, THEN conjunct2, THEN conjunct2, THEN conjunct2, THEN conjunct2, THEN conjunct2, THEN conjunct1] r by blast
  have c: "PROCESS_BI_WITH_ARGS plain_env ?m (start_state [])
      = push_num plain_env (bi_sub (ARG ?m)) (start_state [])"
    using inst [THEN conjunct2, THEN conjunct2, THEN conjunct2, THEN conjunct2, THEN conjunct2, THEN conjunct2, THEN conjunct2, THEN conjunct2, THEN conjunct2, THEN conjunct2, THEN conjunct2, THEN conjunct1] n by blast
  from a b c show ?thesis by blast
qed

subsection \<open>Quotes at the end of the input\<close>

text \<open>
  Claim C3 (the exit status is zero exactly when the input ends with an empty call
  stack and \<open>quote_depth = 0\<close>) fails on the code, in both directions. \<^verbatim>\<open>main\<close> tests
  \<open>quote_on\<close> at the end of the input, and a right quote met outside quotes decrements
  \<open>quote_depth\<close> from 0 to \<^verbatim>\<open>SIZE_MAX\<close> without touching \<open>quote_on\<close>. On the input of one
  apostrophe, \<^verbatim>\<open>main\<close> returns 0 with an empty stack and \<open>quote_depth\<close> at
  18446744073709551615. On an apostrophe followed by a backtick, the left quote takes
  \<open>quote_depth\<close> back to 0 and sets \<open>quote_on\<close>: \<^verbatim>\<open>main\<close> reports unfinished quotes and
  returns 1 with an empty stack and \<open>quote_depth = 0\<close>.
\<close>

theorem stray_right_quote_exit_zero:
  "(case main (Suc (Suc 0)) plain_env [] [CHR 0x27] of
      Some (Return r st) \<Rightarrow>
        r = 0 \<and> stack st = [] \<and> quote_on st = False
        \<and> quote_depth st = 18446744073709551615 \<and> quote_depth st \<noteq> 0
    | _ \<Rightarrow> False)
   \<and> (case main (Suc (Suc (Suc 0))) plain_env [] [CHR 0x27, CHR 0x60] of
      Some (Return r st) \<Rightarrow>
        r = 1 \<and> stack st = [] \<and> quote_on st = True \<and> quote_depth st = 0
        \<and> stderr st = ''Input finished without exiting quotes'' @ [CHR 0x0A]
    | _ \<Rightarrow> False)"
  by (simp add: run_defs)

subsection \<open>The map of \<^verbatim>\<open>translit\<close>\<close>

lemmas translit_eval = translit_def translit_init_def UCHAR_MAX_def

text \<open>
  Claim C6 (the map has a slot for each of the 256 byte values, so the lookup of every
  byte of the source string, 255 included, is in bounds) fails on the code. The array
  is declared \<^verbatim>\<open>int map[UCHAR_MAX]\<close>: it has 255 slots, for the bytes 0 to 254, and the
  loop that sets them to -1 runs over these. The lookup of the byte 255 reads past the
  array: on the input \<^verbatim>\<open>translit(\<close>, the byte 255, \<^verbatim>\<open>,a,b)\<close> the behaviour of \<^verbatim>\<open>main\<close> is
  undefined.
\<close>

theorem translit_map_out_of_bounds:
  "length translit_init = 255
   \<and> translit_apply translit_init [CHR 0xFF] = None
   \<and> main (Suc (Suc (Suc (Suc (Suc (Suc (Suc (Suc 0)))))))) plain_env []
        (''translit('' @ [CHR 0xFF] @ '',a,b)'') = Some Crash"
  by (simp add: run_defs translit_eval)

subsection \<open>An identifier cut by the end of the input\<close>





lemma buf_a_same: "buf_a b = [] \<Longrightarrow> b\<lparr>buf_a := []\<rparr> = b"
  by simp






subsection \<open>Plain text passes through\<close>
















end
